theory Spec2Isabelle
  imports Main "HOL-Library.Word"
begin

unbundle bit_operations_syntax

section \<open>Hash kernels: unique and dictionary-encode (arrow/compute/kernels/hash.cc)\<close>

text \<open>
  Errors are values. \<open>Invalid\<close>, \<open>NotImplemented\<close> and \<open>TypeError\<close> are the status
  codes the kernels return; \<open>Eof\<close> and \<open>ParquetException\<close> are the exceptions of the
  file format's coders. The others stand for what C++ leaves undefined: an index outside the
  array it addresses, a member call through a null pointer, a read through a pointer
  whose buffer has been released, an integer division by zero, and a loop that never
  ends.
\<close>

datatype error = Invalid | NotImplemented | TypeError | Eof | ParquetException
  | OutOfBounds | NullPointer | DanglingPointer | DivisionByZero | Diverges

text \<open>\<open>kInitialHashTableSize = 1 << 10\<close>, \<open>kHashSlotEmpty = INT32_MAX\<close>.\<close>

definition kInitialHashTableSize :: nat where
  "kInitialHashTableSize = 1024"

definition kHashSlotEmpty :: int where
  "kHashSlotEmpty = 2147483647"

text \<open>
  A conversion to \<open>int32_t\<close> (\<open>hash_slot_t\<close>, \<open>int\<close>): the low 32 bits, read as a
  signed number.
\<close>

definition to_int32 :: "int \<Rightarrow> int" where
  "to_int32 x = (x + 2147483648) mod 4294967296 - 2147483648"

text \<open>
  \<open>kMaxHashTableLoad = 0.7\<close>, "the maximum load factor for the hash table before
  resizing". \<open>n\<close> values are over the load of a table when \<open>n > size * 0.7\<close>, that is
  when \<open>10 * n > 7 * size\<close>.
\<close>

definition over_max_load :: "nat \<Rightarrow> nat \<Rightarrow> bool" where
  "over_max_load n table_size \<longleftrightarrow> 10 * n > 7 * table_size"

text \<open>The element types named in the kernels' dispatch.\<close>

datatype type_id = NullType | BooleanType | UInt8Type | Int8Type | UInt16Type | Int16Type
  | UInt32Type | Int32Type | UInt64Type | Int64Type | FloatType | DoubleType
  | Date32Type | Date64Type | Time32Type | Time64Type | TimestampType
  | BinaryType | StringType | FixedSizeBinaryType

text \<open>
  The two actions of the file. \<open>allow_expand\<close> is \<open>true\<close> in both classes.
\<close>

datatype action = UniqueImpl | DictEncodeImpl

fun allow_expand :: "action \<Rightarrow> bool" where
  "allow_expand UniqueImpl = True"
| "allow_expand DictEncodeImpl = True"

text \<open>
  The state of \<open>HashTableKernel<Type, Action, enable_if_primitive_ctype>\<close>: the members of
  \<open>HashTable\<close>, the \<open>HashDictionary\<close> \<open>dict_\<close> (its first \<open>size\<close> values are
  \<open>dict_values\<close>) and, for \<open>DictEncodeImpl\<close>, the \<open>indices_builder_\<close>.
  \<open>hash_slots = None\<close> is the null \<open>hash_table_\<close> of a kernel that never called
  \<open>HashTable::Init\<close>. The \<open>Int32Builder\<close> is a list with one entry per appended
  position: \<open>Some i\<close> for \<open>UnsafeAppend(i)\<close>, \<open>None\<close> for \<open>UnsafeAppendToBitmap(false)\<close>.
\<close>

record 'a hash_kernel =
  kernel_type :: type_id
  initialized :: bool
  hash_slots :: "int list option"
  hash_table_size :: nat
  mod_bitmask :: int
  dict_values :: "'a list"
  dict_capacity :: nat
  indices_builder :: "int option list"

text \<open>The constructor: no table yet, an empty dictionary, an empty builder.\<close>

definition new_kernel :: "type_id \<Rightarrow> 'a hash_kernel" where
  "new_kernel ty = \<lparr> kernel_type = ty, initialized = False, hash_slots = None,
     hash_table_size = 0, mod_bitmask = 0, dict_values = [], dict_capacity = 0,
     indices_builder = [] \<rparr>"

text \<open>\<open>NewHashTable\<close>: \<open>size\<close> slots, all empty.\<close>

definition NewHashTable :: "nat \<Rightarrow> int list" where
  "NewHashTable n = replicate n kHashSlotEmpty"

text \<open>
  \<open>HashTableKernel::Init\<close> for primitive types: \<open>dict_.Init\<close> (size 0, capacity
  \<open>kInitialHashTableSize\<close>), then \<open>HashTable::Init(kInitialHashTableSize)\<close>.
\<close>

definition Init :: "'a hash_kernel \<Rightarrow> 'a hash_kernel" where
  "Init k = k \<lparr> dict_values := [], dict_capacity := kInitialHashTableSize,
     hash_slots := Some (NewHashTable kInitialHashTableSize),
     hash_table_size := kInitialHashTableSize,
     mod_bitmask := int kInitialHashTableSize - 1,
     initialized := True \<rparr>"

text \<open>The hooks of the two actions.\<close>

fun ObserveNull :: "action \<Rightarrow> 'a hash_kernel \<Rightarrow> 'a hash_kernel" where
  "ObserveNull UniqueImpl k = k"
| "ObserveNull DictEncodeImpl k = k \<lparr> indices_builder := indices_builder k @ [None] \<rparr>"

fun ObserveFound :: "action \<Rightarrow> int \<Rightarrow> 'a hash_kernel \<Rightarrow> 'a hash_kernel" where
  "ObserveFound UniqueImpl slot k = k"
| "ObserveFound DictEncodeImpl slot k =
     k \<lparr> indices_builder := indices_builder k @ [Some slot] \<rparr>"

fun ObserveNotFound :: "action \<Rightarrow> int \<Rightarrow> 'a hash_kernel \<Rightarrow> 'a hash_kernel" where
  "ObserveNotFound UniqueImpl slot k = k"
| "ObserveNotFound DictEncodeImpl slot k = ObserveFound DictEncodeImpl slot k"




text \<open>
  \<open>HASH_INNER_LOOP\<close> as the preprocessor leaves it. Every line of the macro's
  definition, lines 249 to 278, ends in a backslash, and line 253, right after the two
  declarations, starts a \<open>//\<close> comment. Lines are joined before comments are removed,
  so this comment runs on to line 279, the last line of the definition. The macro is
  \<^verbatim>\<open>int64_t j = HashValue(value) & mod_bitmask_; hash_slot_t slot = hash_slots_[j];\<close>
  and the search for the value, the insertion, the calls of \<open>ObserveFound\<close>,
  \<open>ObserveNotFound\<close> and \<open>DoubleSize\<close> are text of that comment. One expansion reads
  one slot of the table and changes nothing.
\<close>

definition hash_inner_loop :: "('a \<Rightarrow> int) \<Rightarrow> 'a \<Rightarrow> 'a hash_kernel \<Rightarrow> error + 'a hash_kernel" where
  "hash_inner_loop h v k =
     (case hash_slots k of
        None \<Rightarrow> Inl NullPointer
      | Some slots \<Rightarrow>
          let j = h v AND mod_bitmask k
          in if j < 0 \<or> int (length slots) \<le> j then Inl OutOfBounds else Inr k)"

text \<open>
  \<open>ArrayData\<close>: \<open>buffers[0]\<close> is the validity bitmap (one bool per bit),
  \<open>buffers[1]\<close> the values; both are read from \<open>offset\<close> on. An array of
  \<open>NullType\<close> has a length and no buffers.
\<close>

record 'a array_data =
  arr_type :: type_id
  arr_length :: nat
  arr_null_count :: int
  arr_offset :: nat
  arr_validity :: "bool list"
  arr_values :: "'a list"

text \<open>
  The two loops of \<open>Append\<close>, for positions \<open>i, i + 1, ..\<close> up to \<open>arr.length\<close>; the
  argument \<open>n\<close> is the number of positions left. The loop for \<open>null_count != 0\<close>
  (lines 284 to 295) declares \<open>value = values[i]\<close>, reads the validity bit and calls
  \<open>ObserveNull\<close> for a null or expands the macro for a value. The loop for
  \<open>null_count == 0\<close> (lines 297 to 299) expands the macro where no \<open>value\<close> is
  declared. Whatever the name would stand for, the expansion reads one of the slots
  \<open>0 .. mod_bitmask_\<close> and changes nothing; the model asks that these slots exist and
  goes on.
\<close>

fun append_loop :: "('a \<Rightarrow> int) \<Rightarrow> action \<Rightarrow> 'a array_data \<Rightarrow> nat \<Rightarrow> nat \<Rightarrow> 'a hash_kernel \<Rightarrow> error + 'a hash_kernel" where
  "append_loop h act arr i 0 k = Inr k"
| "append_loop h act arr i (Suc n) k =
     (if arr_null_count arr \<noteq> 0 then
        (if arr_offset arr + i \<ge> length (arr_values arr) then Inl OutOfBounds
         else if arr_offset arr + i \<ge> length (arr_validity arr) then Inl OutOfBounds
         else if \<not> arr_validity arr ! (arr_offset arr + i)
           then append_loop h act arr (Suc i) n (ObserveNull act k)
           else (case hash_inner_loop h (arr_values arr ! (arr_offset arr + i)) k of
                   Inl e \<Rightarrow> Inl e
                 | Inr k' \<Rightarrow> append_loop h act arr (Suc i) n k'))
      else
        (case hash_slots k of
           None \<Rightarrow> Inl NullPointer
         | Some slots \<Rightarrow>
             if mod_bitmask k < 0 \<or> int (length slots) \<le> mod_bitmask k then Inl OutOfBounds
             else append_loop h act arr (Suc i) n k))"

definition Append :: "('a \<Rightarrow> int) \<Rightarrow> action \<Rightarrow> 'a array_data \<Rightarrow> 'a hash_kernel \<Rightarrow> error + 'a hash_kernel" where
  "Append h act arr k =
     append_loop h act arr 0 (arr_length arr) (if initialized k then k else Init k)"

text \<open>
  The kernel for \<open>NullType\<close>: \<open>Init\<close> does nothing (it neither builds a table nor
  sets \<open>initialized_\<close>), \<open>Append\<close> calls \<open>ObserveNull\<close> once per position, and
  \<open>GetDictionary\<close> is \<open>NullArray(0)\<close>.
\<close>

definition Init_null :: "'a hash_kernel \<Rightarrow> 'a hash_kernel" where
  "Init_null k = k"

fun observe_nulls :: "action \<Rightarrow> nat \<Rightarrow> 'a hash_kernel \<Rightarrow> 'a hash_kernel" where
  "observe_nulls act 0 k = k"
| "observe_nulls act (Suc n) k = observe_nulls act n (ObserveNull act k)"

definition Append_null :: "action \<Rightarrow> 'a array_data \<Rightarrow> 'a hash_kernel \<Rightarrow> 'a hash_kernel" where
  "Append_null act arr k =
     observe_nulls act (arr_length arr) (if initialized k then k else Init_null k)"

definition NullArray :: "nat \<Rightarrow> 'a array_data" where
  "NullArray n = \<lparr> arr_type = NullType, arr_length = n, arr_null_count = int n,
     arr_offset = 0, arr_validity = [], arr_values = [] \<rparr>"

definition GetDictionary_null :: "'a hash_kernel \<Rightarrow> 'a array_data" where
  "GetDictionary_null k = NullArray 0"

text \<open>
  \<open>GetDictionary\<close> for primitive types: an array of the kernel's type over the first
  \<open>dict_.size\<close> values of the dictionary buffer, without a bitmap and with null count 0.
\<close>

definition GetDictionary :: "'a hash_kernel \<Rightarrow> 'a array_data" where
  "GetDictionary k = \<lparr> arr_type = kernel_type k, arr_length = length (dict_values k),
     arr_null_count = 0, arr_offset = 0, arr_validity = [], arr_values = dict_values k \<rparr>"

text \<open>
  \<open>Flush\<close>: nothing for \<open>UniqueImpl\<close>; \<open>DictEncodeImpl\<close> finishes the builder, which hands
  over the indices appended so far and starts empty again.
\<close>

fun Flush :: "action \<Rightarrow> 'a hash_kernel \<Rightarrow> int option list list \<Rightarrow> 'a hash_kernel \<times> int option list list" where
  "Flush UniqueImpl k out = (k, out)"
| "Flush DictEncodeImpl k out = (k \<lparr> indices_builder := [] \<rparr>, out @ [indices_builder k])"

text \<open>
  \<open>GetUniqueKernel\<close> and \<open>GetDictionaryEncodeKernel\<close> switch on the type id. Both
  switches list the same cases: \<open>NullType\<close> selects the null kernel, the eight integer
  types and the two floating-point types the primitive kernel, and every other type
  leaves the hasher unset, which \<open>CHECK_IMPLEMENTED\<close> turns into \<open>NotImplemented\<close>.
\<close>

datatype hasher = NullHasher | PrimitiveHasher

fun hasher_of :: "type_id \<Rightarrow> hasher option" where
  "hasher_of NullType = Some NullHasher"
| "hasher_of UInt8Type = Some PrimitiveHasher"
| "hasher_of Int8Type = Some PrimitiveHasher"
| "hasher_of UInt16Type = Some PrimitiveHasher"
| "hasher_of Int16Type = Some PrimitiveHasher"
| "hasher_of UInt32Type = Some PrimitiveHasher"
| "hasher_of Int32Type = Some PrimitiveHasher"
| "hasher_of UInt64Type = Some PrimitiveHasher"
| "hasher_of Int64Type = Some PrimitiveHasher"
| "hasher_of FloatType = Some PrimitiveHasher"
| "hasher_of DoubleType = Some PrimitiveHasher"
| "hasher_of _ = None"

definition GetUniqueKernel :: "type_id \<Rightarrow> error + action \<times> hasher" where
  "GetUniqueKernel ty =
     (case hasher_of ty of None \<Rightarrow> Inl NotImplemented | Some hk \<Rightarrow> Inr (UniqueImpl, hk))"

definition GetDictionaryEncodeKernel :: "type_id \<Rightarrow> error + action \<times> hasher" where
  "GetDictionaryEncodeKernel ty =
     (case hasher_of ty of None \<Rightarrow> Inl NotImplemented | Some hk \<Rightarrow> Inr (DictEncodeImpl, hk))"

text \<open>The virtual calls \<open>hasher_->Append\<close> and \<open>hasher_->GetDictionary\<close>.\<close>

fun hasher_Append :: "('a \<Rightarrow> int) \<Rightarrow> action \<times> hasher \<Rightarrow> 'a array_data \<Rightarrow> 'a hash_kernel \<Rightarrow> error + 'a hash_kernel" where
  "hasher_Append h (act, NullHasher) arr k = Inr (Append_null act arr k)"
| "hasher_Append h (act, PrimitiveHasher) arr k = Append h act arr k"

fun hasher_GetDictionary :: "action \<times> hasher \<Rightarrow> 'a hash_kernel \<Rightarrow> 'a array_data" where
  "hasher_GetDictionary (act, NullHasher) k = GetDictionary_null k"
| "hasher_GetDictionary (act, PrimitiveHasher) k = GetDictionary k"

text \<open>
  \<open>HashKernelImpl::Call\<close> is \<open>Append\<close> then \<open>Flush\<close>. \<open>InvokeHash\<close> calls it once for an
  array and once per chunk, in order, for a chunked array, then takes the dictionary.
\<close>

datatype 'a datum = ARRAY "'a array_data" | CHUNKED_ARRAY type_id "'a array_data list"

fun datum_type :: "'a datum \<Rightarrow> type_id" where
  "datum_type (ARRAY arr) = arr_type arr"
| "datum_type (CHUNKED_ARRAY ty chunks) = ty"

definition Call :: "('a \<Rightarrow> int) \<Rightarrow> action \<times> hasher \<Rightarrow> 'a array_data \<Rightarrow> 'a hash_kernel \<times> int option list list \<Rightarrow> error + 'a hash_kernel \<times> int option list list" where
  "Call h func arr s =
     (case hasher_Append h func arr (fst s) of
        Inl e \<Rightarrow> Inl e
      | Inr k \<Rightarrow> Inr (Flush (fst func) k (snd s)))"

fun call_chunks :: "('a \<Rightarrow> int) \<Rightarrow> action \<times> hasher \<Rightarrow> 'a array_data list \<Rightarrow> 'a hash_kernel \<times> int option list list \<Rightarrow> error + 'a hash_kernel \<times> int option list list" where
  "call_chunks h func [] s = Inr s"
| "call_chunks h func (c # cs) s =
     (case Call h func c s of Inl e \<Rightarrow> Inl e | Inr s' \<Rightarrow> call_chunks h func cs s')"

definition InvokeHash :: "('a \<Rightarrow> int) \<Rightarrow> action \<times> hasher \<Rightarrow> 'a datum \<Rightarrow> error + int option list list \<times> 'a array_data" where
  "InvokeHash h func d =
     (case (case d of
              ARRAY arr \<Rightarrow> Call h func arr (new_kernel (datum_type d), [])
            | CHUNKED_ARRAY ty chunks \<Rightarrow> call_chunks h func chunks (new_kernel (datum_type d), [])) of
        Inl e \<Rightarrow> Inl e
      | Inr (k, outs) \<Rightarrow> Inr (outs, hasher_GetDictionary func k))"

text \<open>
  \<open>Unique\<close> returns the dictionary. \<open>DictionaryEncode\<close> returns the index arrays the
  kernel yielded (the first one for an array, all of them for a chunked array) together
  with the dictionary they share; it reads \<open>indices_outputs[0]\<close>, which a chunked array
  without chunks does not have.
\<close>

definition Unique :: "('a \<Rightarrow> int) \<Rightarrow> 'a datum \<Rightarrow> error + 'a array_data" where
  "Unique h d =
     (case GetUniqueKernel (datum_type d) of
        Inl e \<Rightarrow> Inl e
      | Inr func \<Rightarrow>
          (case InvokeHash h func d of
             Inl e \<Rightarrow> Inl e
           | Inr (dummy_outputs, dictionary) \<Rightarrow> Inr dictionary))"

definition DictionaryEncode :: "('a \<Rightarrow> int) \<Rightarrow> 'a datum \<Rightarrow> error + int option list list \<times> 'a array_data" where
  "DictionaryEncode h d =
     (case GetDictionaryEncodeKernel (datum_type d) of
        Inl e \<Rightarrow> Inl e
      | Inr func \<Rightarrow>
          (case InvokeHash h func d of
             Inl e \<Rightarrow> Inl e
           | Inr (indices_outputs, dictionary) \<Rightarrow>
               (case indices_outputs of
                  [] \<Rightarrow> Inl OutOfBounds
                | first # others \<Rightarrow>
                    (case d of
                       ARRAY arr \<Rightarrow> Inr ([first], dictionary)
                     | CHUNKED_ARRAY ty chunks \<Rightarrow> Inr (indices_outputs, dictionary)))))"

section \<open>The file format's dictionary encoder (parquet/encoding-internal.h)\<close>

text \<open>
  Modelled from the spec: the memo table (\<open>ScalarMemoTable\<close> and \<open>BinaryMemoTable\<close> of
  arrow/util/hashing.h, which is not part of these sources). The spec gives it as an
  insertion-ordered map from values to dense indices: \<open>get_or_insert\<close> returns the
  existing index of a value already observed and calls \<open>on_found\<close>; otherwise it
  assigns the next index, calls \<open>on_not_found\<close> and returns it; \<open>copy_values\<close> and
  \<open>visit_values\<close> enumerate the values in insertion order. The table is the list of
  its values in that order. \<open>GetOrInsert\<close> returns the index, whether the value was
  found, and the table.
\<close>

fun memo_get :: "'v \<Rightarrow> 'v list \<Rightarrow> nat option" where
  "memo_get v [] = None"
| "memo_get v (x # xs) = (if x = v then Some 0 else map_option Suc (memo_get v xs))"

definition GetOrInsert :: "'v \<Rightarrow> 'v list \<Rightarrow> int \<times> bool \<times> 'v list" where
  "GetOrInsert v memo =
     (case memo_get v memo of
        Some i \<Rightarrow> (int i, True, memo)
      | None \<Rightarrow> (int (length memo), False, memo @ [v]))"

text \<open>
  The encoder. \<open>dict_encoded_size_\<close> and \<open>type_length_\<close> are of type \<open>int\<close>, the
  buffered indices a vector of \<open>int\<close>.
\<close>

record 'v dict_encoder =
  buffered_indices :: "int list"
  dict_encoded_size :: int
  type_length :: int
  memo_table :: "'v list"

definition DictEncoder :: "int \<Rightarrow> 'v dict_encoder" where
  "DictEncoder desc_type_length = \<lparr> buffered_indices = [], dict_encoded_size = 0,
     type_length = desc_type_length, memo_table = [] \<rparr>"

definition num_entries :: "'v dict_encoder \<Rightarrow> int" where
  "num_entries enc = int (length (memo_table enc))"

text \<open>
  What one \<open>Put\<close> does once it knows the key and the number of bytes \<open>on_not_found\<close>
  adds: the counter changes only for a key that was not found, and the index is
  buffered in both cases. The sum is an \<open>int\<close> again.
\<close>

definition put_key :: "'v \<Rightarrow> int \<Rightarrow> 'v dict_encoder \<Rightarrow> 'v dict_encoder" where
  "put_key key added enc =
     (case GetOrInsert key (memo_table enc) of
        (memo_index, found, memo) \<Rightarrow>
          enc \<lparr> dict_encoded_size :=
                  (if found then dict_encoded_size enc
                   else to_int32 (dict_encoded_size enc + added)),
                memo_table := memo,
                buffered_indices := buffered_indices enc @ [memo_index] \<rparr>)"

text \<open>
  \<open>Put\<close> for a primitive type \<open>T\<close>, a word of \<open>sizeof(T)\<close> bytes:
  \<open>dict_encoded_size_ += static_cast<int>(sizeof(T))\<close>.
\<close>

definition sizeof_word :: "'a::len word \<Rightarrow> nat" where
  "sizeof_word v = LENGTH('a) div 8"

definition Put :: "'a::len word \<Rightarrow> 'a word dict_encoder \<Rightarrow> error + 'a word dict_encoder" where
  "Put v enc = Inr (put_key v (to_int32 (int (sizeof_word v))) enc)"

text \<open>
  \<open>Put\<close> for \<open>ByteArrayType\<close>. A \<open>ByteArray\<close> is the list of its bytes, \<open>len\<close> the
  length of the list, a \<open>uint32_t\<close>.
  \<open>dict_encoded_size_ += static_cast<int>(v.len + sizeof(uint32_t))\<close>. The memo table
  takes the length as \<open>static_cast<int32_t>(v.len)\<close>; what it does with a negative
  length is not in these sources, and the model stops there.
\<close>

type_synonym byte = "8 word"

definition Put_ByteArray :: "byte list \<Rightarrow> byte list dict_encoder \<Rightarrow> error + byte list dict_encoder" where
  "Put_ByteArray v enc =
     (if int (length v) \<ge> 2147483648 then Inl OutOfBounds
      else Inr (put_key v (to_int32 (int (length v) + 4)) enc))"

text \<open>
  \<open>Put\<close> for \<open>FLBAType\<close>. A \<open>FixedLenByteArray\<close> is a pointer; the argument is the
  list of the bytes it points to, of which the memo table copies \<open>type_length_\<close>.
  \<open>dict_encoded_size_ += type_length_\<close>.
\<close>

definition Put_FLBA :: "byte list \<Rightarrow> byte list dict_encoder \<Rightarrow> error + byte list dict_encoder" where
  "Put_FLBA v enc =
     (if type_length enc < 0 \<or> int (length v) < type_length enc then Inl OutOfBounds
      else Inr (put_key (take (nat (type_length enc)) v) (type_length enc) enc))"

text \<open>
  \<open>Put(const T* src, int num_values)\<close> and \<open>PutSpaced\<close> are written once for all
  element types and call the \<open>Put\<close> of the type, here the argument \<open>put\<close>. \<open>src\<close>
  is the list of the values, \<open>num_values\<close> a count into it. \<open>PutSpaced\<close> reads bit
  \<open>valid_bits_offset + i\<close> of the bitmap (one bool per bit) for position \<open>i\<close>, and
  \<open>src[i]\<close> only where the bit is set.
\<close>

fun put_loop :: "('v \<Rightarrow> 'v dict_encoder \<Rightarrow> error + 'v dict_encoder) \<Rightarrow> 'v list \<Rightarrow> nat \<Rightarrow> nat \<Rightarrow> 'v dict_encoder \<Rightarrow> error + 'v dict_encoder" where
  "put_loop put src i 0 enc = Inr enc"
| "put_loop put src i (Suc n) enc =
     (if i \<ge> length src then Inl OutOfBounds
      else case put (src ! i) enc of
             Inl e \<Rightarrow> Inl e
           | Inr enc' \<Rightarrow> put_loop put src (Suc i) n enc')"

definition Put_many :: "('v \<Rightarrow> 'v dict_encoder \<Rightarrow> error + 'v dict_encoder) \<Rightarrow> 'v list \<Rightarrow> nat \<Rightarrow> 'v dict_encoder \<Rightarrow> error + 'v dict_encoder" where
  "Put_many put src num_values enc = put_loop put src 0 num_values enc"

fun put_spaced_loop :: "('v \<Rightarrow> 'v dict_encoder \<Rightarrow> error + 'v dict_encoder) \<Rightarrow> 'v list \<Rightarrow> bool list \<Rightarrow> nat \<Rightarrow> nat \<Rightarrow> nat \<Rightarrow> 'v dict_encoder \<Rightarrow> error + 'v dict_encoder" where
  "put_spaced_loop put src valid_bits valid_bits_offset i 0 enc = Inr enc"
| "put_spaced_loop put src valid_bits valid_bits_offset i (Suc n) enc =
     (if valid_bits_offset + i \<ge> length valid_bits then Inl OutOfBounds
      else if valid_bits ! (valid_bits_offset + i) then
        (if i \<ge> length src then Inl OutOfBounds
         else case put (src ! i) enc of
                Inl e \<Rightarrow> Inl e
              | Inr enc' \<Rightarrow> put_spaced_loop put src valid_bits valid_bits_offset (Suc i) n enc')
      else put_spaced_loop put src valid_bits valid_bits_offset (Suc i) n enc)"

definition PutSpaced :: "('v \<Rightarrow> 'v dict_encoder \<Rightarrow> error + 'v dict_encoder) \<Rightarrow> 'v list \<Rightarrow> nat \<Rightarrow> bool list \<Rightarrow> nat \<Rightarrow> 'v dict_encoder \<Rightarrow> error + 'v dict_encoder" where
  "PutSpaced put src num_values valid_bits valid_bits_offset enc =
     put_spaced_loop put src valid_bits valid_bits_offset 0 num_values enc"

text \<open>A sequence of calls on one encoder; the first call that fails ends it.\<close>

datatype 'v put_call = CallPut 'v | CallPutMany "'v list" nat | CallPutSpaced "'v list" nat "bool list" nat

fun run_call :: "('v \<Rightarrow> 'v dict_encoder \<Rightarrow> error + 'v dict_encoder) \<Rightarrow> 'v put_call \<Rightarrow> 'v dict_encoder \<Rightarrow> error + 'v dict_encoder" where
  "run_call put (CallPut v) enc = put v enc"
| "run_call put (CallPutMany src n) enc = Put_many put src n enc"
| "run_call put (CallPutSpaced src n bits off) enc = PutSpaced put src n bits off enc"

fun run_calls :: "('v \<Rightarrow> 'v dict_encoder \<Rightarrow> error + 'v dict_encoder) \<Rightarrow> 'v put_call list \<Rightarrow> 'v dict_encoder \<Rightarrow> error + 'v dict_encoder" where
  "run_calls put [] enc = Inr enc"
| "run_calls put (c # cs) enc =
     (case run_call put c enc of Inl e \<Rightarrow> Inl e | Inr enc' \<Rightarrow> run_calls put cs enc')"

text \<open>
  \<open>WriteDict\<close>, as the list of the bytes it writes. For a primitive type
  \<open>CopyValues\<close> copies the values, each in the \<open>sizeof(T)\<close> bytes of its little-endian
  representation. For \<open>ByteArrayType\<close> each value is written as its length in four
  bytes and then its bytes. For \<open>FLBAType\<close> \<open>type_length_\<close> bytes of each value are
  copied.
\<close>

definition le_bytes :: "nat \<Rightarrow> 'a::len word \<Rightarrow> byte list" where
  "le_bytes n w = map (\<lambda>i. ucast (drop_bit (8 * i) w)) [0..<n]"

definition WriteDict :: "'a::len word dict_encoder \<Rightarrow> byte list" where
  "WriteDict enc = concat (map (\<lambda>v. le_bytes (sizeof_word v) v) (memo_table enc))"

definition WriteDict_ByteArray :: "byte list dict_encoder \<Rightarrow> byte list" where
  "WriteDict_ByteArray enc =
     concat (map (\<lambda>v. le_bytes 4 (word_of_nat (length v) :: 32 word) @ v) (memo_table enc))"

definition WriteDict_FLBA :: "byte list dict_encoder \<Rightarrow> error + byte list" where
  "WriteDict_FLBA enc =
     (if type_length enc < 0 \<or> (\<exists>v \<in> set (memo_table enc). int (length v) < type_length enc)
      then Inl OutOfBounds
      else Inr (concat (map (take (nat (type_length enc))) (memo_table enc))))"

text \<open>
  What the size counter holds, for each of the three kinds of element type: the number
  of bytes \<open>WriteDict\<close> writes, as an \<open>int\<close>. For \<open>FLBAType\<close> every value of the
  table has \<open>type_length_\<close> bytes.
\<close>

definition counts_WriteDict :: "'a::len word dict_encoder \<Rightarrow> bool" where
  "counts_WriteDict enc \<longleftrightarrow> dict_encoded_size enc = to_int32 (int (length (WriteDict enc)))"

definition counts_ByteArray :: "byte list dict_encoder \<Rightarrow> bool" where
  "counts_ByteArray enc \<longleftrightarrow>
     dict_encoded_size enc = to_int32 (int (length (WriteDict_ByteArray enc)))"

definition counts_FLBA :: "byte list dict_encoder \<Rightarrow> bool" where
  "counts_FLBA enc \<longleftrightarrow>
     list_all (\<lambda>v. int (length v) = type_length enc) (memo_table enc)
     \<and> dict_encoded_size enc = to_int32 (type_length enc * int (length (memo_table enc)))"

text \<open>
  Modelled from the spec: \<open>BitUtil::Log2\<close> (arrow/util/bit-util.h, not part of these
  sources), which the spec gives as \<open>ceil(log2(num_entries))\<close>.
\<close>

function Log2 :: "nat \<Rightarrow> nat" where
  "Log2 n = (if n \<le> 1 then 0 else Suc (Log2 ((n + 1) div 2)))"
  by pat_completeness auto
termination
  by (relation "measure (\<lambda>n. n)") auto

definition bit_width :: "'v dict_encoder \<Rightarrow> int" where
  "bit_width enc =
     (if num_entries enc = 0 then 0
      else if num_entries enc = 1 then 1
      else int (Log2 (nat (num_entries enc))))"

text \<open>
  \<open>RleEncoder\<close> (arrow/util/rle-encoding.h) is not part of these sources. The encoder
  is a parameter: a state \<open>'e\<close> with the constructor over \<open>buffer_len\<close> bytes for a bit
  width, \<open>Put\<close>, which answers whether the value fitted, \<open>Flush\<close> and \<open>len\<close>.
\<close>

record 'e rle_encoder =
  rle_new :: "int \<Rightarrow> int \<Rightarrow> 'e"
  rle_Put :: "'e \<Rightarrow> int \<Rightarrow> bool \<times> 'e"
  rle_Flush :: "'e \<Rightarrow> 'e"
  rle_len :: "'e \<Rightarrow> int"

text \<open>
  The loop of \<open>WriteIndices\<close> over the buffered indices: \<open>None\<close> when a \<open>Put\<close>
  answers false, which is where the source returns -1.
\<close>

fun put_indices :: "'e rle_encoder \<Rightarrow> int list \<Rightarrow> 'e \<Rightarrow> 'e option" where
  "put_indices rle [] e = Some e"
| "put_indices rle (index # rest) e =
     (case rle_Put rle e index of
        (False, e') \<Rightarrow> None
      | (True, e') \<Rightarrow> put_indices rle rest e')"

text \<open>
  \<open>WriteIndices\<close> returns the number of bytes or -1, the encoder, and the first byte
  and the RLE encoder's state, which are what the call leaves in the buffer (nothing
  is said about the buffer after a failed call). The first byte is written before
  anything is checked, so the buffer has to hold one byte at least.
\<close>

definition WriteIndices :: "'e rle_encoder \<Rightarrow> int \<Rightarrow> 'v dict_encoder \<Rightarrow> error + int \<times> 'v dict_encoder \<times> (int \<times> 'e) option" where
  "WriteIndices rle buffer_len enc =
     (if buffer_len < 1 then Inl OutOfBounds
      else case put_indices rle (buffered_indices enc)
                  (rle_new rle (buffer_len - 1) (bit_width enc)) of
             None \<Rightarrow> Inr (- 1, enc, None)
           | Some e \<Rightarrow>
               let e' = rle_Flush rle e
               in Inr (1 + rle_len rle e', enc \<lparr> buffered_indices := [] \<rparr>,
                       Some (bit_width enc mod 256, e')))"

section \<open>The delta-bit-packed decoder (parquet/encoding-internal.h)\<close>

text \<open>
  \<open>BitUtil::BitReader\<close> (arrow/util/bit-stream-utils.h) is not part of these sources.
  The reader is a parameter: a state \<open>'r\<close> and the four reads the decoder uses, each
  answering \<open>None\<close> where the source's call answers false.
\<close>

record 'r bit_reader =
  GetVlqInt :: "'r \<Rightarrow> (int \<times> 'r) option"
  GetZigZagVlqInt :: "'r \<Rightarrow> (int \<times> 'r) option"
  GetAligned :: "'r \<Rightarrow> (nat \<times> 'r) option"
  GetValue :: "int \<Rightarrow> 'r \<Rightarrow> (int \<times> 'r) option"

text \<open>
  The members of \<open>DeltaBitPackDecoder\<close>. \<open>delta_bit_widths_\<close> is a shared pointer to
  a buffer, \<open>None\<close> when null. \<open>last_value_\<close> and \<open>min_delta_\<close> are \<open>int32_t\<close> whatever
  the element type; the two mini-block counters are \<open>uint64_t\<close>, \<open>mini_block_idx_\<close> is
  a \<open>size_t\<close>.
\<close>

record 'r delta_decoder =
  num_values :: int
  decoder :: 'r
  values_current_block :: int
  num_mini_blocks :: int
  values_per_mini_block :: nat
  values_current_mini_block :: nat
  min_delta :: int
  mini_block_idx :: nat
  delta_bit_widths :: "nat list option"
  delta_bit_width :: int
  last_value :: int

datatype parquet_type = BOOLEAN | INT32 | INT64 | INT96 | FLOAT | DOUBLE
  | BYTE_ARRAY | FIXED_LEN_BYTE_ARRAY

text \<open>
  The constructor initialises \<open>pool_\<close> only and throws for an element type other than
  \<open>INT32\<close> and \<open>INT64\<close>. The shared pointer is default-constructed, that is null; the
  other members keep whatever the memory holds, which is the argument \<open>uninit\<close>.
\<close>

definition DeltaBitPackDecoder :: "parquet_type \<Rightarrow> 'r delta_decoder \<Rightarrow> error + 'r delta_decoder" where
  "DeltaBitPackDecoder type_num uninit =
     (if type_num \<noteq> INT32 \<and> type_num \<noteq> INT64 then Inl ParquetException
      else Inr (uninit \<lparr> delta_bit_widths := None \<rparr>))"

text \<open>\<open>SetData\<close>; the reader over \<open>data\<close> and \<open>len\<close> is the argument \<open>r\<close>.\<close>

definition SetData :: "int \<Rightarrow> 'r \<Rightarrow> 'r delta_decoder \<Rightarrow> 'r delta_decoder" where
  "SetData n r s = s \<lparr> num_values := n, decoder := r, values_current_block := 0,
     values_current_mini_block := 0 \<rparr>"

text \<open>The loop of \<open>InitBlock\<close> that reads one byte of bit width per mini-block.\<close>

fun read_bit_widths :: "'r bit_reader \<Rightarrow> nat \<Rightarrow> 'r \<Rightarrow> (nat list \<times> 'r) option" where
  "read_bit_widths rd 0 r = Some ([], r)"
| "read_bit_widths rd (Suc n) r =
     (case GetAligned rd r of
        None \<Rightarrow> None
      | Some (w, r') \<Rightarrow>
          (case read_bit_widths rd n r' of
             None \<Rightarrow> None
           | Some (ws, r'') \<Rightarrow> Some (w # ws, r'')))"

text \<open>
  The division of C++ integers: the quotient of the absolute values, negated when the
  signs of the operands differ.
\<close>

definition trunc_div :: "int \<Rightarrow> int \<Rightarrow> int" where
  "trunc_div a b =
     (if (a < 0) = (b < 0) then \<bar>a\<bar> div \<bar>b\<bar> else - (\<bar>a\<bar> div \<bar>b\<bar>))"

text \<open>
  \<open>InitBlock\<close>. \<open>AllocateBuffer\<close> throws when it cannot allocate, which is the case of
  a negative size. \<open>block_size / num_mini_blocks_\<close> is a division of \<open>int32_t\<close> whose
  quotient becomes a \<open>uint64_t\<close>.
\<close>

definition InitBlock :: "'r bit_reader \<Rightarrow> 'r delta_decoder \<Rightarrow> error + 'r delta_decoder" where
  "InitBlock rd s =
     (case GetVlqInt rd (decoder s) of None \<Rightarrow> Inl Eof | Some (block_size, r1) \<Rightarrow>
      case GetVlqInt rd r1 of None \<Rightarrow> Inl Eof | Some (nmb, r2) \<Rightarrow>
      case GetVlqInt rd r2 of None \<Rightarrow> Inl Eof | Some (vcb, r3) \<Rightarrow>
      case GetZigZagVlqInt rd r3 of None \<Rightarrow> Inl Eof | Some (first_value, r4) \<Rightarrow>
      if nmb < 0 then Inl ParquetException else
      case GetZigZagVlqInt rd r4 of None \<Rightarrow> Inl Eof | Some (md, r5) \<Rightarrow>
      case read_bit_widths rd (nat nmb) r5 of None \<Rightarrow> Inl Eof | Some (widths, r6) \<Rightarrow>
      if nmb = 0 then Inl DivisionByZero else
      let vpm = nat (trunc_div block_size nmb mod 2 ^ 64)
      in Inr (s \<lparr> decoder := r6, num_mini_blocks := nmb, values_current_block := vcb,
                  last_value := first_value, delta_bit_widths := Some widths,
                  min_delta := md, values_per_mini_block := vpm, mini_block_idx := 0,
                  delta_bit_width := int (hd widths),
                  values_current_mini_block := vpm \<rparr>))"

text \<open>
  The tail of one iteration of the loop of \<open>GetInternal\<close>: read a delta at the current
  bit width, add \<open>min_delta_\<close>, and add the sum, converted to \<open>int32_t\<close>, to
  \<open>last_value_\<close>, an \<open>int32_t\<close>.
\<close>

definition decode_delta :: "'r bit_reader \<Rightarrow> 'r delta_decoder \<Rightarrow> error + 'r delta_decoder" where
  "decode_delta rd s =
     (case GetValue rd (delta_bit_width s) (decoder s) of
        None \<Rightarrow> Inl Eof
      | Some (delta, r) \<Rightarrow>
          Inr (s \<lparr> decoder := r,
                    last_value := to_int32 (last_value s + to_int32 (delta + min_delta s)),
                    values_current_mini_block :=
                      (values_current_mini_block s + 2 ^ 64 - 1) mod 2 ^ 64 \<rparr>))"

text \<open>
  The loop of \<open>GetInternal\<close>; \<open>n\<close> counts the iterations left and \<open>buffer\<close> collects
  the values written. \<open>bit_width_data\<close> is the pointer taken before the loop from the
  buffer of that moment. \<open>InitBlock\<close> replaces the buffer, which releases the old one:
  from then on the pointer dangles, which is \<open>None\<close> here.
\<close>

fun get_loop :: "'r bit_reader \<Rightarrow> nat list option \<Rightarrow> nat \<Rightarrow> 'r delta_decoder \<Rightarrow> int list \<Rightarrow> error + 'r delta_decoder \<times> int list" where
  "get_loop rd bit_width_data 0 s buffer = Inr (s, buffer)"
| "get_loop rd bit_width_data (Suc n) s buffer =
     (if values_current_mini_block s = 0 then
        (let idx = (mini_block_idx s + 1) mod 2 ^ 64 in
         case delta_bit_widths s of
           None \<Rightarrow> Inl NullPointer
         | Some widths \<Rightarrow>
             if idx < length widths then
               (case bit_width_data of
                  None \<Rightarrow> Inl DanglingPointer
                | Some data \<Rightarrow>
                    if idx \<ge> length data then Inl OutOfBounds
                    else
                      (case decode_delta rd
                              (s \<lparr> mini_block_idx := idx, delta_bit_width := int (data ! idx),
                                    values_current_mini_block := values_per_mini_block s \<rparr>) of
                         Inl e \<Rightarrow> Inl e
                       | Inr s' \<Rightarrow> get_loop rd bit_width_data n s' (buffer @ [last_value s'])))
             else
               (case InitBlock rd (s \<lparr> mini_block_idx := idx \<rparr>) of
                  Inl e \<Rightarrow> Inl e
                | Inr s' \<Rightarrow> get_loop rd None n s' (buffer @ [last_value s'])))
      else
        (case decode_delta rd s of
           Inl e \<Rightarrow> Inl e
         | Inr s' \<Rightarrow> get_loop rd bit_width_data n s' (buffer @ [last_value s'])))"

text \<open>
  \<open>GetInternal\<close> returns the decoder, the values written and their number. Its second
  statement, before the loop, is \<open>delta_bit_widths_->data()\<close>.
\<close>

definition GetInternal :: "'r bit_reader \<Rightarrow> int \<Rightarrow> 'r delta_decoder \<Rightarrow> error + 'r delta_decoder \<times> int list \<times> int" where
  "GetInternal rd max_values s =
     (let max_values' = min max_values (num_values s) in
      case delta_bit_widths s of
        None \<Rightarrow> Inl NullPointer
      | Some data \<Rightarrow>
          (case get_loop rd (Some data) (nat max_values') s [] of
             Inl e \<Rightarrow> Inl e
           | Inr (s', buffer) \<Rightarrow>
               Inr (s' \<lparr> num_values := num_values s' - max_values' \<rparr>, buffer, max_values')))"

definition Decode :: "'r bit_reader \<Rightarrow> int \<Rightarrow> 'r delta_decoder \<Rightarrow> error + 'r delta_decoder \<times> int list \<times> int" where
  "Decode rd max_values s = GetInternal rd max_values s"

text \<open>
  A reader to run the decoder on: the page as the list of the items a writer put into
  it, each read answering the item at the front if it is of the kind asked for.
\<close>

datatype token = Vlq int | ZigZag int | Byte nat | Bits int int

definition token_reader :: "token list bit_reader" where
  "token_reader = \<lparr>
     GetVlqInt = (\<lambda>ts. case ts of Vlq v # rest \<Rightarrow> Some (v, rest) | _ \<Rightarrow> None),
     GetZigZagVlqInt = (\<lambda>ts. case ts of ZigZag v # rest \<Rightarrow> Some (v, rest) | _ \<Rightarrow> None),
     GetAligned = (\<lambda>ts. case ts of Byte b # rest \<Rightarrow> Some (b, rest) | _ \<Rightarrow> None),
     GetValue = (\<lambda>w ts. case ts of Bits w' v # rest \<Rightarrow> if w' = w then Some (v, rest) else None
                          | _ \<Rightarrow> None) \<rparr>"

section \<open>The cast kernel (arrow/compute/kernels/cast.cc)\<close>

text \<open>
  The cast kernel is not part of these sources, only its tests are
  (arrow/compute/compute-test.cc). The definitions of this section follow the spec.
  A column is the list of its slots, each a validity bit and the stored value; the
  value of a null slot is whatever the buffer holds there.
\<close>

type_synonym column = "(bool \<times> int) list"

record cast_options =
  allow_int_overflow :: bool
  allow_time_truncate :: bool

text \<open>
  Modelled from the spec: the integer types, "signed/unsigned integers of widths
  {8,16,32,64}" (the cast kernel's type table is missing), with the values each
  represents.
\<close>

fun int_bits :: "type_id \<Rightarrow> nat" where
  "int_bits UInt8Type = 8"
| "int_bits Int8Type = 8"
| "int_bits UInt16Type = 16"
| "int_bits Int16Type = 16"
| "int_bits UInt32Type = 32"
| "int_bits Int32Type = 32"
| "int_bits UInt64Type = 64"
| "int_bits Int64Type = 64"
| "int_bits _ = 0"

fun is_signed :: "type_id \<Rightarrow> bool" where
  "is_signed Int8Type = True"
| "is_signed Int16Type = True"
| "is_signed Int32Type = True"
| "is_signed Int64Type = True"
| "is_signed _ = False"

definition representable :: "type_id \<Rightarrow> int \<Rightarrow> bool" where
  "representable ty v \<longleftrightarrow>
     (if is_signed ty then - (2 ^ (int_bits ty - 1)) \<le> v \<and> v < 2 ^ (int_bits ty - 1)
      else 0 \<le> v \<and> v < 2 ^ int_bits ty)"

text \<open>
  Modelled from the spec: the conversion of one integer to an integer type (the cast
  kernel's element conversion is missing), "the two's-complement truncation of the
  source value".
\<close>

definition convert_int :: "type_id \<Rightarrow> int \<Rightarrow> int" where
  "convert_int ty v =
     (if is_signed ty
      then (v + 2 ^ (int_bits ty - 1)) mod 2 ^ int_bits ty - 2 ^ (int_bits ty - 1)
      else v mod 2 ^ int_bits ty)"

text \<open>
  Modelled from the spec: the integer cast (the cast kernel is missing). "Integer to
  integer: widening is always lossless; narrowing honors \<open>allow_int_overflow\<close>.
  Overflow checks must skip null slots." "\<open>allow_int_overflow\<close>: when false, any
  integer-narrowing conversion that loses value fails with \<open>Invalid\<close>; when true, the
  result is the two's-complement truncation of the source value." "Every conversion
  preserves the input's validity bitmap exactly." The spec names the check twice more:
  the cast "succeeds iff every non-null value is representable in T", and the overflow
  policy is "whether an integer narrowing that changes value is permitted (wrap) or
  rejected". \<open>loses_value\<close> is the conversion to the target type changing the value.
\<close>

definition loses_value :: "type_id \<Rightarrow> int \<Rightarrow> bool" where
  "loses_value tgt v \<longleftrightarrow> convert_int tgt v \<noteq> v"

definition cast_int :: "cast_options \<Rightarrow> type_id \<Rightarrow> type_id \<Rightarrow> column \<Rightarrow> error + column" where
  "cast_int options src tgt col =
     (if int_bits tgt < int_bits src \<and> \<not> allow_int_overflow options
         \<and> list_ex (\<lambda>(valid, v). valid \<and> loses_value tgt v) col
      then Inl Invalid
      else Inr (map (\<lambda>(valid, v). (valid, convert_int tgt v)) col))"

text \<open>
  Modelled from the spec: the units of a timestamp (the cast kernel's unit table is
  missing), "unit multipliers are the integer ratios among s:1, ms:10^3, us:10^6,
  ns:10^9".
\<close>

datatype time_unit = SECOND | MILLI | MICRO | NANO

fun unit_multiplier :: "time_unit \<Rightarrow> int" where
  "unit_multiplier SECOND = 1"
| "unit_multiplier MILLI = 1000"
| "unit_multiplier MICRO = 1000000"
| "unit_multiplier NANO = 1000000000"

text \<open>
  Modelled from the spec: the timestamp cast (the cast kernel is missing).
  "Timestamp(unit_s) to Timestamp(unit_t): multiplication when unit_s coarser than
  unit_t; division otherwise, honoring \<open>allow_time_truncate\<close>."
  "\<open>allow_time_truncate\<close>: when false, any conversion that would discard nonzero
  sub-units fails with \<open>Invalid\<close>; when true, division is floor-toward-zero on
  nonnegative values and truncation toward zero on negatives (i.e. integer division in
  the source representation)." The same unit is the identity. The spec gives the
  rescaling no width and no overflow rule: the values are integers.
\<close>

definition discards_sub_units :: "int \<Rightarrow> int \<Rightarrow> bool" where
  "discards_sub_units ratio v \<longleftrightarrow> trunc_div v ratio * ratio \<noteq> v"

definition cast_timestamp :: "cast_options \<Rightarrow> time_unit \<Rightarrow> time_unit \<Rightarrow> column \<Rightarrow> error + column" where
  "cast_timestamp options src tgt col =
     (if unit_multiplier src = unit_multiplier tgt then Inr col
      else if unit_multiplier src < unit_multiplier tgt then
        Inr (map (\<lambda>(valid, v). (valid, v * (unit_multiplier tgt div unit_multiplier src))) col)
      else
        let ratio = unit_multiplier src div unit_multiplier tgt
        in if \<not> allow_time_truncate options
              \<and> list_ex (\<lambda>(valid, v). valid \<and> discards_sub_units ratio v) col
           then Inl Invalid
           else Inr (map (\<lambda>(valid, v). (valid, trunc_div v ratio)) col))"

text \<open>
  Two columns that differ only in the values stored at null positions: the same
  validity bits, and the same value wherever the bit is set.
\<close>

definition same_valid_slots :: "(bool \<times> 'a) list \<Rightarrow> (bool \<times> 'a) list \<Rightarrow> bool" where
  "same_valid_slots a b \<longleftrightarrow>
     list_all2 (\<lambda>(valid, v) (valid', v'). valid = valid' \<and> (valid \<longrightarrow> v = v')) a b"

text \<open>
  Modelled from the spec: the types of the cast kernel's dispatch matrix (the cast
  kernel is missing). \<open>TInt\<close> is an integer type, of one of the eight integer type ids.
  Booleans, integers, dates, times and timestamps are stored as integers, a boolean as 0
  or 1; the values of the two floating-point types are of a type \<open>'f\<close> of their own.
\<close>

datatype cast_type = TNull | TBool | TInt type_id | TFloat | TDouble
  | TTimestamp time_unit | TTime32 time_unit | TTime64 time_unit | TDate32 | TDate64

datatype 'f cast_column = IntColumn column | FloatColumn "(bool \<times> 'f) list"

fun stored_as_float :: "cast_type \<Rightarrow> bool" where
  "stored_as_float TFloat = True"
| "stored_as_float TDouble = True"
| "stored_as_float _ = False"

text \<open>
  Floating-point arithmetic is not modelled. What the casts do with one floating-point
  value is a parameter: its truncation toward zero, whether it has a fractional part,
  whether it is nonzero ("NaN is true"), and the conversions of an integer and of a
  floating-point value to a floating-point type ("value-preserving where representable;
  lossy conversions permitted silently").
\<close>

record 'f float_ops =
  float_truncate :: "'f \<Rightarrow> int"
  float_has_fraction :: "'f \<Rightarrow> bool"
  float_is_nonzero :: "'f \<Rightarrow> bool"
  float_of_int :: "cast_type \<Rightarrow> int \<Rightarrow> 'f"
  float_to_float :: "cast_type \<Rightarrow> 'f \<Rightarrow> 'f"

text \<open>
  Modelled from the spec: a conversion element by element. "Every conversion preserves
  the input's validity bitmap exactly. Overflow/truncation checks examine only positions
  where validity=1." A conversion that is \<open>checked\<close> fails with \<open>Invalid\<close> when its check
  fails at a valid position.
\<close>

definition cast_elements :: "bool \<Rightarrow> ('a \<Rightarrow> bool) \<Rightarrow> ('a \<Rightarrow> 'b) \<Rightarrow> (bool \<times> 'a) list \<Rightarrow> error + (bool \<times> 'b) list" where
  "cast_elements checked fails conv col =
     (if checked \<and> list_ex (\<lambda>(valid, v). valid \<and> fails v) col then Inl Invalid
      else Inr (map (\<lambda>(valid, v). (valid, conv v)) col))"

definition as_ints :: "error + column \<Rightarrow> error + 'f cast_column" where
  "as_ints r = (case r of Inl e \<Rightarrow> Inl e | Inr col \<Rightarrow> Inr (IntColumn col))"

definition as_floats :: "error + (bool \<times> 'f) list \<Rightarrow> error + 'f cast_column" where
  "as_floats r = (case r of Inl e \<Rightarrow> Inl e | Inr col \<Rightarrow> Inr (FloatColumn col))"

text \<open>
  Modelled from the spec: the casts between timestamps and dates. "Timestamp to Date64
  (ms, truncated to whole days if \<open>allow_time_truncate\<close>, otherwise require exact day
  multiple): divide to ms then floor to day * 86_400_000." "Timestamp to Date32 (days):
  divide to seconds then floor to days; same truncation policy." "Date32 to Date64:
  multiply by 86_400_000." "Date64 to Date32: divide by 86_400_000; truncation policy
  applies." The first step of the casts from a timestamp is the cast to the timestamp
  in milliseconds or in seconds.
\<close>

definition timestamp_to_date64 :: "cast_options \<Rightarrow> time_unit \<Rightarrow> column \<Rightarrow> error + column" where
  "timestamp_to_date64 options u col =
     (case cast_timestamp options u MILLI col of
        Inl e \<Rightarrow> Inl e
      | Inr ms \<Rightarrow>
          cast_elements (\<not> allow_time_truncate options) (\<lambda>v. v mod 86400000 \<noteq> 0)
            (\<lambda>v. v div 86400000 * 86400000) ms)"

definition timestamp_to_date32 :: "cast_options \<Rightarrow> time_unit \<Rightarrow> column \<Rightarrow> error + column" where
  "timestamp_to_date32 options u col =
     (case cast_timestamp options u SECOND col of
        Inl e \<Rightarrow> Inl e
      | Inr seconds \<Rightarrow>
          cast_elements (\<not> allow_time_truncate options) (\<lambda>v. v mod 86400 \<noteq> 0)
            (\<lambda>v. v div 86400) seconds)"

definition date32_to_date64 :: "column \<Rightarrow> error + column" where
  "date32_to_date64 col = cast_elements False (\<lambda>v. False) (\<lambda>v. v * 86400000) col"

definition date64_to_date32 :: "cast_options \<Rightarrow> column \<Rightarrow> error + column" where
  "date64_to_date32 options col =
     cast_elements (\<not> allow_time_truncate options) (discards_sub_units 86400000)
       (\<lambda>v. trunc_div v 86400000) col"

text \<open>
  Modelled from the spec: the cast from a floating-point to an integer type. "Honors
  \<open>allow_float_truncate\<close>; truncates toward zero; overflow handling per
  \<open>allow_int_overflow\<close>." "\<open>allow_float_truncate\<close> (implied for float to int): when false,
  fractional input fails; when true, it truncates toward zero." The option is an
  argument of its own here.
\<close>

definition float_to_int :: "'f float_ops \<Rightarrow> bool \<Rightarrow> cast_options \<Rightarrow> type_id \<Rightarrow> (bool \<times> 'f) list \<Rightarrow> error + column" where
  "float_to_int fo allow_float_truncate options tgt col =
     cast_elements True
       (\<lambda>v. (\<not> allow_float_truncate \<and> float_has_fraction fo v)
            \<or> (\<not> allow_int_overflow options \<and> loses_value tgt (float_truncate fo v)))
       (\<lambda>v. convert_int tgt (float_truncate fo v)) col"

text \<open>
  Modelled from the spec: the dispatch matrix for a source type that is stored as
  integers. "Null to any type: output is all-null of requested type and equal length."
  "Bool to and from Int/Float: false is 0, true is 1." "Integer to Integer: widening is
  always lossless; narrowing honors \<open>allow_int_overflow\<close>." "Integer/Float to Float."
  "Timestamp(unit_s) to Timestamp(unit_t)." "Time32/64(unit) to Time32/64(unit): same
  rescaling rules." The casts between timestamps and dates as above. "Integer to and
  from Date/Time/Timestamp of matching width: zero-copy (same physical layout)."
  "All others yield \<open>NotImplemented\<close>."
\<close>

fun cast_ints :: "'f float_ops \<Rightarrow> cast_options \<Rightarrow> cast_type \<Rightarrow> cast_type \<Rightarrow> column \<Rightarrow> error + 'f cast_column" where
  "cast_ints fo options TNull tgt col =
     (if stored_as_float tgt
      then Inr (FloatColumn (map (\<lambda>(valid, v). (False, float_of_int fo tgt 0)) col))
      else Inr (IntColumn (map (\<lambda>(valid, v). (False, 0)) col)))"
| "cast_ints fo options TBool (TInt t) col =
     (if 0 < int_bits t
      then Inr (IntColumn (map (\<lambda>(valid, v). (valid, if v = 0 then 0 else 1)) col))
      else Inl NotImplemented)"
| "cast_ints fo options TBool TFloat col =
     Inr (FloatColumn (map (\<lambda>(valid, v). (valid, float_of_int fo TFloat (if v = 0 then 0 else 1))) col))"
| "cast_ints fo options TBool TDouble col =
     Inr (FloatColumn (map (\<lambda>(valid, v). (valid, float_of_int fo TDouble (if v = 0 then 0 else 1))) col))"
| "cast_ints fo options (TInt s) TBool col =
     (if 0 < int_bits s
      then Inr (IntColumn (map (\<lambda>(valid, v). (valid, if v = 0 then 0 else 1)) col))
      else Inl NotImplemented)"
| "cast_ints fo options (TInt s) (TInt t) col =
     (if 0 < int_bits s \<and> 0 < int_bits t then as_ints (cast_int options s t col)
      else Inl NotImplemented)"
| "cast_ints fo options (TInt s) TFloat col =
     (if 0 < int_bits s
      then Inr (FloatColumn (map (\<lambda>(valid, v). (valid, float_of_int fo TFloat v)) col))
      else Inl NotImplemented)"
| "cast_ints fo options (TInt s) TDouble col =
     (if 0 < int_bits s
      then Inr (FloatColumn (map (\<lambda>(valid, v). (valid, float_of_int fo TDouble v)) col))
      else Inl NotImplemented)"
| "cast_ints fo options (TTimestamp u) (TTimestamp u') col =
     as_ints (cast_timestamp options u u' col)"
| "cast_ints fo options (TTime32 u) (TTime32 u') col = as_ints (cast_timestamp options u u' col)"
| "cast_ints fo options (TTime32 u) (TTime64 u') col = as_ints (cast_timestamp options u u' col)"
| "cast_ints fo options (TTime64 u) (TTime32 u') col = as_ints (cast_timestamp options u u' col)"
| "cast_ints fo options (TTime64 u) (TTime64 u') col = as_ints (cast_timestamp options u u' col)"
| "cast_ints fo options (TTimestamp u) TDate64 col = as_ints (timestamp_to_date64 options u col)"
| "cast_ints fo options (TTimestamp u) TDate32 col = as_ints (timestamp_to_date32 options u col)"
| "cast_ints fo options TDate32 TDate64 col = as_ints (date32_to_date64 col)"
| "cast_ints fo options TDate64 TDate32 col = as_ints (date64_to_date32 options col)"
| "cast_ints fo options (TInt s) TDate32 col =
     (if int_bits s = 32 then Inr (IntColumn col) else Inl NotImplemented)"
| "cast_ints fo options TDate32 (TInt t) col =
     (if int_bits t = 32 then Inr (IntColumn col) else Inl NotImplemented)"
| "cast_ints fo options (TInt s) (TTime32 u) col =
     (if int_bits s = 32 then Inr (IntColumn col) else Inl NotImplemented)"
| "cast_ints fo options (TTime32 u) (TInt t) col =
     (if int_bits t = 32 then Inr (IntColumn col) else Inl NotImplemented)"
| "cast_ints fo options (TInt s) TDate64 col =
     (if int_bits s = 64 then Inr (IntColumn col) else Inl NotImplemented)"
| "cast_ints fo options TDate64 (TInt t) col =
     (if int_bits t = 64 then Inr (IntColumn col) else Inl NotImplemented)"
| "cast_ints fo options (TInt s) (TTime64 u) col =
     (if int_bits s = 64 then Inr (IntColumn col) else Inl NotImplemented)"
| "cast_ints fo options (TTime64 u) (TInt t) col =
     (if int_bits t = 64 then Inr (IntColumn col) else Inl NotImplemented)"
| "cast_ints fo options (TInt s) (TTimestamp u) col =
     (if int_bits s = 64 then Inr (IntColumn col) else Inl NotImplemented)"
| "cast_ints fo options (TTimestamp u) (TInt t) col =
     (if int_bits t = 64 then Inr (IntColumn col) else Inl NotImplemented)"
| "cast_ints fo options src tgt col = Inl NotImplemented"

text \<open>
  Modelled from the spec: the dispatch matrix for a floating-point source type. "Floats:
  any nonzero nonnull value is true; NaN is true." "Float to Integer." "Integer/Float to
  Float."
\<close>

fun cast_floats :: "'f float_ops \<Rightarrow> bool \<Rightarrow> cast_options \<Rightarrow> cast_type \<Rightarrow> (bool \<times> 'f) list \<Rightarrow> error + 'f cast_column" where
  "cast_floats fo allow_float_truncate options TBool col =
     Inr (IntColumn (map (\<lambda>(valid, v). (valid, if float_is_nonzero fo v then 1 else 0)) col))"
| "cast_floats fo allow_float_truncate options (TInt t) col =
     (if 0 < int_bits t then as_ints (float_to_int fo allow_float_truncate options t col)
      else Inl NotImplemented)"
| "cast_floats fo allow_float_truncate options TFloat col =
     Inr (FloatColumn (map (\<lambda>(valid, v). (valid, float_to_float fo TFloat v)) col))"
| "cast_floats fo allow_float_truncate options TDouble col =
     Inr (FloatColumn (map (\<lambda>(valid, v). (valid, float_to_float fo TDouble v)) col))"
| "cast_floats fo allow_float_truncate options tgt col = Inl NotImplemented"

text \<open>
  Modelled from the spec: \<open>cast(input_array, target_type, options)\<close>. "\<open>TypeError\<close> if
  the input's physical type does not match the claimed logical type." "Identity (same
  type, same metadata): zero-copy; the output shares the input's validity and value
  buffers."
\<close>

definition cast :: "'f float_ops \<Rightarrow> bool \<Rightarrow> cast_options \<Rightarrow> cast_type \<Rightarrow> cast_type \<Rightarrow> 'f cast_column \<Rightarrow> error + 'f cast_column" where
  "cast fo allow_float_truncate options src tgt input =
     (case input of
        IntColumn col \<Rightarrow>
          if stored_as_float src then Inl TypeError
          else if src = tgt then Inr input
          else cast_ints fo options src tgt col
      | FloatColumn col \<Rightarrow>
          if \<not> stored_as_float src then Inl TypeError
          else if src = tgt then Inr input
          else cast_floats fo allow_float_truncate options tgt col)"

text \<open>Two arrays that differ only in the values stored at null positions.\<close>

fun same_valid_columns :: "'f cast_column \<Rightarrow> 'f cast_column \<Rightarrow> bool" where
  "same_valid_columns (IntColumn a) (IntColumn b) = same_valid_slots a b"
| "same_valid_columns (FloatColumn a) (FloatColumn b) = same_valid_slots a b"
| "same_valid_columns a b = False"

text \<open>
  The answers of a cast to two columns agree: the same error, or two columns with the
  same validity bits and the same values at the valid positions.
\<close>

definition agree :: "error + (bool \<times> 'a) list \<Rightarrow> error + (bool \<times> 'a) list \<Rightarrow> bool" where
  "agree r r' \<longleftrightarrow>
     (case r of
        Inl e \<Rightarrow> r' = Inl e
      | Inr x \<Rightarrow> (case r' of Inl e \<Rightarrow> False | Inr y \<Rightarrow> same_valid_slots x y))"

definition columns_agree :: "error + 'f cast_column \<Rightarrow> error + 'f cast_column \<Rightarrow> bool" where
  "columns_agree r r' \<longleftrightarrow>
     (case r of
        Inl e \<Rightarrow> r' = Inl e
      | Inr x \<Rightarrow> (case r' of Inl e \<Rightarrow> False | Inr y \<Rightarrow> same_valid_columns x y))"

section \<open>The memo table as a probing hash table\<close>

text \<open>
  Modelled from the spec: the search and the insertion of the memo table. In hash.cc
  they are text of the comment inside \<open>HASH_INNER_LOOP\<close>, and the memo table of the file
  format's encoder (arrow/util/hashing.h) is not part of these sources. "Open-addressed
  linear probing hash table over int32 slots, where a slot stores the dense index and an
  empty slot is marked by the sentinel INT32_MAX. The capacity is a power of two;
  probing uses slot = hash(value) & (capacity-1) and advances by one on collision,
  wrapping." The hash function is the parameter \<open>h\<close>: "the only correctness requirement
  is determinism within one table lifetime".

  \<open>probe_sequence start capacity\<close> is the order in which the slots are visited from
  \<open>start\<close> on. The probe stops at the first slot in that order that is empty or holds
  the index of the value: \<open>memo_search\<close> is that slot, \<open>memo_lookup\<close> the index found
  there, if any.
\<close>

definition probe_sequence :: "nat \<Rightarrow> nat \<Rightarrow> nat list" where
  "probe_sequence start capacity = map (\<lambda>k. (start + k) mod capacity) [0..<capacity]"

definition home_slot :: "('v \<Rightarrow> int) \<Rightarrow> nat \<Rightarrow> 'v \<Rightarrow> nat" where
  "home_slot h capacity v = nat (h v AND (int capacity - 1))"

definition slot_holds :: "int list \<Rightarrow> 'v list \<Rightarrow> 'v \<Rightarrow> nat \<Rightarrow> bool" where
  "slot_holds slots vals v j \<longleftrightarrow>
     slots ! j \<noteq> kHashSlotEmpty \<and> 0 \<le> slots ! j \<and> nat (slots ! j) < length vals
     \<and> vals ! nat (slots ! j) = v"

definition probe_stops :: "int list \<Rightarrow> 'v list \<Rightarrow> 'v \<Rightarrow> nat \<Rightarrow> bool" where
  "probe_stops slots vals v j \<longleftrightarrow> slots ! j = kHashSlotEmpty \<or> slot_holds slots vals v j"

definition memo_search :: "('v \<Rightarrow> int) \<Rightarrow> int list \<Rightarrow> 'v list \<Rightarrow> 'v \<Rightarrow> nat option" where
  "memo_search h slots vals v =
     find (probe_stops slots vals v) (probe_sequence (home_slot h (length slots) v) (length slots))"

definition memo_lookup :: "('v \<Rightarrow> int) \<Rightarrow> int list \<Rightarrow> 'v list \<Rightarrow> 'v \<Rightarrow> int option" where
  "memo_lookup h slots vals v =
     (case memo_search h slots vals v of
        None \<Rightarrow> None
      | Some j \<Rightarrow> if slots ! j = kHashSlotEmpty then None else Some (slots ! j))"


text \<open>
  Modelled from the spec: the memo table and its \<open>get_or_insert\<close>. "Returns the existing
  dense index if value already observed (and calls \<open>on_found\<close>); otherwise assigns the
  next dense index, calls \<open>on_not_found\<close> with it, and returns it." "A fixed max load
  factor of 0.7 triggers resize (double capacity). On resize, every occupied slot is
  rehashed against the new mask and reinserted", where "linear probing still applies". The
  table is its slots and its values in the order of their indices; \<open>size\<close> is the
  number of values, the capacity the number of slots. \<open>get_or_insert\<close> returns the
  index, whether the value was found, and the table. A probe that has gone through a
  full table without finding the value does not end.
\<close>

record 'v memo =
  memo_slots :: "int list"
  memo_values :: "'v list"

definition memo_new :: "nat \<Rightarrow> 'v memo" where
  "memo_new capacity = \<lparr> memo_slots = replicate capacity kHashSlotEmpty, memo_values = [] \<rparr>"

definition memo_size :: "'v memo \<Rightarrow> nat" where
  "memo_size m = length (memo_values m)"

definition memo_capacity :: "'v memo \<Rightarrow> nat" where
  "memo_capacity m = length (memo_slots m)"

fun reinsert :: "('v \<Rightarrow> int) \<Rightarrow> 'v list \<Rightarrow> int list \<Rightarrow> int list \<Rightarrow> error + int list" where
  "reinsert h vals [] new_slots = Inr new_slots"
| "reinsert h vals (index # rest) new_slots =
     (if index = kHashSlotEmpty then reinsert h vals rest new_slots
      else if index < 0 \<or> length vals \<le> nat index then Inl OutOfBounds
      else
        case find (\<lambda>j. new_slots ! j = kHashSlotEmpty)
               (probe_sequence (home_slot h (length new_slots) (vals ! nat index))
                  (length new_slots)) of
          None \<Rightarrow> Inl Diverges
        | Some j \<Rightarrow> reinsert h vals rest (new_slots[j := index]))"

definition memo_resize :: "('v \<Rightarrow> int) \<Rightarrow> 'v memo \<Rightarrow> error + 'v memo" where
  "memo_resize h m =
     (case reinsert h (memo_values m) (memo_slots m)
             (replicate (2 * memo_capacity m) kHashSlotEmpty) of
        Inl e \<Rightarrow> Inl e
      | Inr new_slots \<Rightarrow> Inr (m \<lparr> memo_slots := new_slots \<rparr>))"

definition get_or_insert :: "('v \<Rightarrow> int) \<Rightarrow> 'v \<Rightarrow> 'v memo \<Rightarrow> error + int \<times> bool \<times> 'v memo" where
  "get_or_insert h v m =
     (case memo_search h (memo_slots m) (memo_values m) v of
        None \<Rightarrow> Inl Diverges
      | Some j \<Rightarrow>
          if memo_slots m ! j \<noteq> kHashSlotEmpty then Inr (memo_slots m ! j, True, m)
          else
            let index = int (memo_size m);
                m1 = \<lparr> memo_slots = (memo_slots m)[j := index],
                       memo_values = memo_values m @ [v] \<rparr>
            in if over_max_load (memo_size m1) (memo_capacity m1)
               then (case memo_resize h m1 of
                       Inl e \<Rightarrow> Inl e
                     | Inr m2 \<Rightarrow> Inr (index, False, m2))
               else Inr (index, False, m1))"

text \<open>
  The states of the memo table. The values are distinct and fewer than the slots; the
  indices are below \<open>INT32_MAX\<close>, the mark of an empty slot; every occupied slot holds
  the index of a value, and no more slots are occupied than there are values; the lookup
  of every value gives its index. A new table is such a state, and \<open>get_or_insert\<close>
  leads from one such state to another.
\<close>

definition table_ok :: "('v \<Rightarrow> int) \<Rightarrow> int list \<Rightarrow> 'v list \<Rightarrow> bool" where
  "table_ok h slots vals \<longleftrightarrow>
     distinct vals
     \<and> int (length vals) \<le> kHashSlotEmpty
     \<and> list_all (\<lambda>s. s = kHashSlotEmpty \<or> (0 \<le> s \<and> nat s < length vals)) slots
     \<and> length (filter (\<lambda>s. s \<noteq> kHashSlotEmpty) slots) \<le> length vals
     \<and> list_all (\<lambda>i. memo_lookup h slots vals (vals ! i) = Some (int i)) [0..<length vals]"

definition memo_invariant :: "('v \<Rightarrow> int) \<Rightarrow> 'v memo \<Rightarrow> bool" where
  "memo_invariant h m \<longleftrightarrow>
     memo_size m < memo_capacity m \<and> table_ok h (memo_slots m) (memo_values m)"


section \<open>Inputs and states of the evaluations\<close>

text \<open>
  An RLE encoder to run \<open>WriteIndices\<close> on: it stores one value per byte of its buffer
  and refuses a value when the buffer is full.
\<close>

definition byte_counting_encoder :: "(int \<times> int list) rle_encoder" where
  "byte_counting_encoder = \<lparr>
     rle_new = (\<lambda>buffer_len bit_width. (buffer_len, [])),
     rle_Put = (\<lambda>(cap, out) v. if int (length out) < cap then (True, (cap, out @ [v]))
                                 else (False, (cap, out))),
     rle_Flush = (\<lambda>e. e),
     rle_len = (\<lambda>(cap, out). int (length out)) \<rparr>"

text \<open>The encoder after \<open>Put\<close> of the three byte arrays \<open>[1, 2]\<close>, \<open>[3]\<close>, \<open>[1, 2]\<close>.\<close>

definition three_indices :: "byte list dict_encoder" where
  "three_indices = \<lparr> buffered_indices = [0, 1, 0], dict_encoded_size = 11,
     type_length = - 1, memo_table = [[1, 2], [3]] \<rparr>"

text \<open>
  Floating-point numbers with one binary digit after the point, each written as twice
  its value, to run the casts on: 3 is 1.5.
\<close>

definition half_floats :: "int float_ops" where
  "half_floats = \<lparr> float_truncate = (\<lambda>f. trunc_div f 2), float_has_fraction = (\<lambda>f. odd f),
     float_is_nonzero = (\<lambda>f. f \<noteq> 0), float_of_int = (\<lambda>ty v. 2 * v),
     float_to_float = (\<lambda>ty f. f) \<rparr>"

text \<open>The cast options with both checks on.\<close>

definition safe_options :: cast_options where
  "safe_options = \<lparr> allow_int_overflow = False, allow_time_truncate = False \<rparr>"

text \<open>
  Encoders after a few calls: four distinct 32-bit values, two distinct values of two
  bytes, and one byte array of 2147483644 bytes.
\<close>

definition four_words :: "32 word dict_encoder" where
  "four_words = \<lparr> buffered_indices = [0, 1, 0, 2, 3, 1], dict_encoded_size = 16,
     type_length = - 1, memo_table = [5, 1, 7, 9] \<rparr>"

definition two_fixed :: "byte list dict_encoder" where
  "two_fixed = \<lparr> buffered_indices = [0, 1, 0], dict_encoded_size = 4,
     type_length = 2, memo_table = [[1, 2], [4, 5]] \<rparr>"

definition huge_entry :: "byte list dict_encoder" where
  "huge_entry = \<lparr> buffered_indices = [0], dict_encoded_size = - 2147483648,
     type_length = - 1, memo_table = [replicate 2147483644 0] \<rparr>"

text \<open>
  A decoder whose \<open>delta_bit_widths_\<close> has been allocated, and the same decoder after it
  has read the header of a block of two values and emitted the first, 2147483647.
\<close>

definition allocated_decoder :: "token list delta_decoder" where
  "allocated_decoder = \<lparr> num_values = 0, decoder = [], values_current_block = 0,
     num_mini_blocks = 0, values_per_mini_block = 0, values_current_mini_block = 0,
     min_delta = 0, mini_block_idx = 0, delta_bit_widths = Some [], delta_bit_width = 0,
     last_value = 0 \<rparr>"

definition after_first_value :: "token list delta_decoder" where
  "after_first_value = \<lparr> num_values = 1, decoder = [Bits 0 0], values_current_block = 2,
     num_mini_blocks = 1, values_per_mini_block = 1, values_current_mini_block = 1,
     min_delta = 1, mini_block_idx = 0, delta_bit_widths = Some [0], delta_bit_width = 0,
     last_value = 2147483647 \<rparr>"

text \<open>The column of the test \<open>EncodeBasic\<close>: 2, null, 2, 1.\<close>

definition basic_column :: "int array_data" where
  "basic_column = \<lparr> arr_type = Int32Type, arr_length = 4, arr_null_count = 1, arr_offset = 0,
     arr_validity = [True, False, True, True], arr_values = [2, 1, 2, 1] \<rparr>"

text \<open>
  A table of 1024 slots with two values whose hashes collide: \<open>a\<close>, with index 0, in
  slot 1023, and \<open>b\<close>, with index 1, in slot 0, the slot after 1023 in a table of this
  size. \<open>after_doubling\<close> is what \<open>DoubleTableSize\<close> makes of it.
\<close>

definition two_collisions :: "int \<Rightarrow> int \<Rightarrow> int hash_kernel" where
  "two_collisions a b = \<lparr> kernel_type = Int64Type, initialized = True,
     hash_slots = Some (1 # replicate 1022 kHashSlotEmpty @ [0]),
     hash_table_size = 1024, mod_bitmask = 1023, dict_values = [a, b],
     dict_capacity = 1024, indices_builder = [] \<rparr>"




section \<open>The null kernel\<close>

lemma observe_nulls_Unique: "observe_nulls UniqueImpl n k = k"
  by (induction n arbitrary: k) simp_all

lemma observe_nulls_DictEncode:
  "observe_nulls DictEncodeImpl n k =
     k \<lparr> indices_builder := indices_builder k @ replicate n None \<rparr>"
proof (induction n arbitrary: k)
  case 0
  show ?case by simp
next
  case (Suc n)
  show ?case by (simp add: Suc.IH replicate_app_Cons_same)
qed

lemma Append_null_Unique: "Append_null UniqueImpl arr k = k"
  by (simp add: Append_null_def Init_null_def observe_nulls_Unique)

lemma Append_null_DictEncode:
  "Append_null DictEncodeImpl arr k =
     k \<lparr> indices_builder := indices_builder k @ replicate (arr_length arr) None \<rparr>"
  by (simp add: Append_null_def Init_null_def observe_nulls_DictEncode)

lemma call_chunks_null_Unique:
  "call_chunks h (UniqueImpl, NullHasher) chunks (k, outs) = Inr (k, outs)"
  by (induction chunks) (simp_all add: Call_def Append_null_Unique)

lemma call_chunks_null_DictEncode:
  "indices_builder k = [] \<Longrightarrow>
   call_chunks h (DictEncodeImpl, NullHasher) chunks (k, outs) =
     Inr (k, outs @ map (\<lambda>c. replicate (arr_length c) None) chunks)"
proof (induction chunks arbitrary: outs)
  case Nil
  show ?case by simp
next
  case (Cons c cs)
  have "k \<lparr> indices_builder := [] \<rparr> = k" using Cons.prems by simp
  then have "Call h (DictEncodeImpl, NullHasher) c (k, outs) =
      Inr (k, outs @ [replicate (arr_length c) None])"
    by (simp add: Call_def Append_null_DictEncode Cons.prems)
  then show ?case
    using Cons.IH [OF Cons.prems] by simp
qed

text \<open>
  Claim C9. For an input of \<open>NullType\<close> of any length, \<open>Unique\<close> returns the null array
  of length 0, and \<open>DictionaryEncode\<close> returns one index array per array or chunk, as
  long as the input, in which every position is null. The null kernel's \<open>Append\<close>
  leaves the hash table pointer and the \<open>initialized_\<close> flag as they are, and its
  result does not depend on the table: no table is built, none is read.
\<close>

theorem null_kernel:
  assumes "arr_type arr = NullType"
  shows "Unique h (ARRAY arr) = Inr (NullArray 0)
    \<and> DictionaryEncode h (ARRAY arr) = Inr ([replicate (arr_length arr) None], NullArray 0)
    \<and> Unique h (CHUNKED_ARRAY NullType chunks) = Inr (NullArray 0)
    \<and> DictionaryEncode h (CHUNKED_ARRAY NullType (c # chunks)) =
          Inr (map (\<lambda>c. replicate (arr_length c) None) (c # chunks), NullArray 0)
    \<and> hash_slots (Append_null act arr k) = hash_slots k
    \<and> initialized (Append_null act arr k) = initialized k
    \<and> Append_null act arr (k \<lparr> hash_slots := t \<rparr>) = (Append_null act arr k) \<lparr> hash_slots := t \<rparr>"
proof -
  have u: "Unique h (ARRAY arr) = Inr (NullArray 0)"
    using assms
    by (simp add: Unique_def GetUniqueKernel_def InvokeHash_def Call_def
        Append_null_Unique GetDictionary_null_def)
  have a: "DictionaryEncode h (ARRAY arr) =
      Inr ([replicate (arr_length arr) None], NullArray 0)"
    using assms
    by (simp add: DictionaryEncode_def GetDictionaryEncodeKernel_def InvokeHash_def Call_def
        Append_null_DictEncode new_kernel_def GetDictionary_null_def)
  have uc: "Unique h (CHUNKED_ARRAY NullType chunks) = Inr (NullArray 0)"
    by (simp add: Unique_def GetUniqueKernel_def InvokeHash_def
        call_chunks_null_Unique GetDictionary_null_def)
  have "indices_builder (new_kernel NullType :: 'a hash_kernel) = []"
    by (simp add: new_kernel_def)
  from call_chunks_null_DictEncode [OF this, of h "c # chunks" "[]"]
  have c: "DictionaryEncode h (CHUNKED_ARRAY NullType (c # chunks)) =
      Inr (map (\<lambda>c. replicate (arr_length c) None) (c # chunks), NullArray 0)"
    by (simp add: DictionaryEncode_def GetDictionaryEncodeKernel_def InvokeHash_def
        GetDictionary_null_def)
  have k: "hash_slots (Append_null act arr k) = hash_slots k
      \<and> initialized (Append_null act arr k) = initialized k
      \<and> Append_null act arr (k \<lparr> hash_slots := t \<rparr>) = (Append_null act arr k) \<lparr> hash_slots := t \<rparr>"
    by (cases act) (simp_all add: Append_null_Unique Append_null_DictEncode)
  from u a uc c k show ?thesis by blast
qed

theorem null_kernel_witness:
  "arr_type (NullArray 3 :: int array_data) = NullType
   \<and> Unique (\<lambda>v. v) (ARRAY (NullArray 3 :: int array_data)) = Inr (NullArray 0)
   \<and> DictionaryEncode (\<lambda>v. v) (ARRAY (NullArray 3 :: int array_data)) =
        Inr ([[None, None, None]], NullArray 0)
   \<and> DictionaryEncode (\<lambda>v. v) (CHUNKED_ARRAY NullType [NullArray 1, NullArray 2 :: int array_data]) =
        Inr ([[None], [None, None]], NullArray 0)"
proof -
  have ty: "arr_type (NullArray 3 :: int array_data) = NullType"
    by (simp add: NullArray_def)
  have len: "arr_length (NullArray n :: int array_data) = n" for n
    by (simp add: NullArray_def)
  have r: "replicate 3 None = [None, None, None :: int option]"
    "replicate 2 None = [None, None :: int option]"
    by (simp_all add: eval_nat_numeral)
  from null_kernel [OF ty, of "\<lambda>v. v" "[NullArray 2]" "NullArray 1" UniqueImpl
      "new_kernel NullType" None] ty
  show ?thesis by (simp add: len r)
qed

section \<open>The dictionary encoder's index page\<close>

lemma put_indices_Some:
  "put_indices rle xs e0 = Some e \<Longrightarrow> e = foldl (\<lambda>e i. snd (rle_Put rle e i)) e0 xs"
proof (induction xs arbitrary: e0)
  case Nil
  then show ?case by simp
next
  case (Cons x xs)
  then show ?case by (auto split: prod.splits bool.splits)
qed

lemma three_indices_reached:
  "run_calls Put_ByteArray [CallPutMany [[1, 2], [3], [1, 2]] 3] (DictEncoder (- 1))
     = Inr three_indices"
  by code_simp

lemma three_indices_too_small:
  "WriteIndices byte_counting_encoder 3 three_indices = Inr (- 1, three_indices, None)"
  by code_simp

lemma three_indices_large_enough:
  "WriteIndices byte_counting_encoder 4 three_indices
     = Inr (4, three_indices \<lparr> buffered_indices := [] \<rparr>, Some (1, 3, [0, 1, 0]))"
  by code_simp

text \<open>
  Claim C10. When \<open>WriteIndices\<close> returns -1 the encoder is as it was before the call,
  its buffered indices included. A later call therefore does what it would have done
  without the failed one, and when it succeeds it has put every buffered index of the
  original sequence, in order, into a fresh RLE encoder, flushed it, and only then
  cleared the indices. (\<open>len\<close> of the RLE encoder is a number of bytes, so not negative.)
\<close>

theorem WriteIndices_failure_keeps_indices:
  assumes fail: "WriteIndices rle len1 enc = Inr (- 1, enc1, buf1)"
    and len: "\<forall>e. 0 \<le> rle_len rle e"
  shows "enc1 = enc
    \<and> WriteIndices rle len2 enc1 = WriteIndices rle len2 enc
    \<and> (WriteIndices rle len2 enc1 = Inr (r, enc2, buf2) \<and> r \<noteq> - 1 \<longrightarrow>
         enc2 = enc \<lparr> buffered_indices := [] \<rparr>
         \<and> buf2 = Some (bit_width enc mod 256,
             rle_Flush rle (foldl (\<lambda>e i. snd (rle_Put rle e i))
               (rle_new rle (len2 - 1) (bit_width enc)) (buffered_indices enc)))
         \<and> r = 1 + rle_len rle (rle_Flush rle (foldl (\<lambda>e i. snd (rle_Put rle e i))
               (rle_new rle (len2 - 1) (bit_width enc)) (buffered_indices enc))))"
proof -
  have same: "enc1 = enc"
  proof (cases "put_indices rle (buffered_indices enc) (rle_new rle (len1 - 1) (bit_width enc))")
    case None
    with fail show ?thesis
      by (simp add: WriteIndices_def split: if_splits)
  next
    case (Some e)
    have "0 \<le> rle_len rle (rle_Flush rle e)" using len by simp
    with fail Some show ?thesis
      by (simp add: WriteIndices_def Let_def split: if_splits)
  qed
  have second: "enc2 = enc \<lparr> buffered_indices := [] \<rparr>
         \<and> buf2 = Some (bit_width enc mod 256,
             rle_Flush rle (foldl (\<lambda>e i. snd (rle_Put rle e i))
               (rle_new rle (len2 - 1) (bit_width enc)) (buffered_indices enc)))
         \<and> r = 1 + rle_len rle (rle_Flush rle (foldl (\<lambda>e i. snd (rle_Put rle e i))
               (rle_new rle (len2 - 1) (bit_width enc)) (buffered_indices enc)))"
    if ok: "WriteIndices rle len2 enc = Inr (r, enc2, buf2)" and r: "r \<noteq> - 1"
  proof (cases "put_indices rle (buffered_indices enc) (rle_new rle (len2 - 1) (bit_width enc))")
    case None
    with ok r show ?thesis
      by (simp add: WriteIndices_def split: if_splits)
  next
    case (Some e)
    from put_indices_Some [OF Some] ok Some show ?thesis
      by (simp add: WriteIndices_def Let_def split: if_splits)
  qed
  from same second show ?thesis by simp
qed

theorem WriteIndices_failure_keeps_indices_witness:
  "WriteIndices byte_counting_encoder 3 three_indices = Inr (- 1, three_indices, None)
   \<and> (\<forall>e. 0 \<le> rle_len byte_counting_encoder e)
   \<and> WriteIndices byte_counting_encoder 4 three_indices
       = Inr (4, three_indices \<lparr> buffered_indices := [] \<rparr>, Some (1, 3, [0, 1, 0]))
   \<and> 4 \<noteq> (- 1 :: int)
   \<and> 4 = 1 + rle_len byte_counting_encoder (rle_Flush byte_counting_encoder
         (foldl (\<lambda>e i. snd (rle_Put byte_counting_encoder e i))
            (rle_new byte_counting_encoder (4 - 1) (bit_width three_indices))
            (buffered_indices three_indices)))"
proof -
  have l: "\<forall>e. 0 \<le> rle_len byte_counting_encoder e"
    by (simp add: byte_counting_encoder_def split: prod.splits)
  from WriteIndices_failure_keeps_indices [OF three_indices_too_small l, of 4 4
      "three_indices \<lparr> buffered_indices := [] \<rparr>" "Some (1, 3, [0, 1, 0])"]
    three_indices_too_small three_indices_large_enough l
  show ?thesis by simp
qed

section \<open>The delta-bit-packed decoder\<close>

text \<open>
  Claim C5. The claim is that the decoder emits the first value of a block and then
  adds the deltas; the code does not get there. A decoder for \<open>INT32\<close> or for \<open>INT64\<close>
  leaves the constructor with a null \<open>delta_bit_widths_\<close>, \<open>SetData\<close> does not touch
  it, \<open>InitBlock\<close>, which allocates it, is called only from inside the loop of
  \<open>GetInternal\<close>, and \<open>GetInternal\<close> calls \<open>delta_bit_widths_->data()\<close> before the loop.
  The first \<open>Decode\<close> of every page, whatever the reader and the number of values
  asked for, is a call through the null pointer, and no value is emitted.
\<close>

theorem delta_decoder_first_decode:
  "DeltaBitPackDecoder INT32 uninit = Inr (uninit \<lparr> delta_bit_widths := None \<rparr>)
   \<and> DeltaBitPackDecoder INT64 uninit = Inr (uninit \<lparr> delta_bit_widths := None \<rparr>)
   \<and> Decode rd max_values (SetData n r (uninit \<lparr> delta_bit_widths := None \<rparr>))
       = Inl NullPointer"
  by (simp add: DeltaBitPackDecoder_def Decode_def GetInternal_def SetData_def)

text \<open>
  Past the null pointer, that is from a decoder whose \<open>delta_bit_widths_\<close> is allocated,
  a block of two values with first value 2147483647 and minimum delta 1 decodes to
  2147483647 and then to -2147483648: \<open>last_value_\<close> is an \<open>int32_t\<close> whatever the
  physical type, and the sum wraps around there.
\<close>

lemma delta_decoder_first_value:
  "Decode token_reader 1 (SetData 2
       [Vlq 1, Vlq 1, Vlq 2, ZigZag 2147483647, ZigZag 1, Byte 0, Bits 0 0] allocated_decoder)
     = Inr (after_first_value, [2147483647], 1)"
  by (simp add: Decode_def GetInternal_def SetData_def allocated_decoder_def
      after_first_value_def InitBlock_def token_reader_def trunc_div_def Let_def)

lemma delta_decoder_accumulator_wraps:
  "Decode token_reader 1 after_first_value
     = Inr (after_first_value \<lparr> num_values := 0, decoder := [],
              values_current_mini_block := 0, last_value := - 2147483648 \<rparr>,
            [- 2147483648], 1)"
  by (simp add: Decode_def GetInternal_def after_first_value_def decode_delta_def
      token_reader_def to_int32_def Let_def)

section \<open>The integer cast\<close>

lemma convert_int_representable: "0 < int_bits ty \<Longrightarrow> representable ty (convert_int ty v)"
proof -
  assume pos: "0 < int_bits ty"
  then obtain n where n: "int_bits ty = Suc n" by (cases "int_bits ty") simp_all
  have m: "0 \<le> (v + 2 ^ n) mod (2 * 2 ^ n)" "(v + 2 ^ n) mod (2 * 2 ^ n) < 2 * 2 ^ n" for v :: int
    by simp_all
  show ?thesis
    using m [of v] by (simp add: representable_def convert_int_def n)
qed

lemma convert_int_id: "representable ty v \<Longrightarrow> 0 < int_bits ty \<Longrightarrow> convert_int ty v = v"
proof -
  assume r: "representable ty v" and pos: "0 < int_bits ty"
  then obtain n where n: "int_bits ty = Suc n" by (cases "int_bits ty") simp_all
  show ?thesis
  proof (cases "is_signed ty")
    case True
    with r n have "0 \<le> v + 2 ^ n" "v + 2 ^ n < 2 * 2 ^ n"
      by (simp_all add: representable_def)
    then have "(v + 2 ^ n) mod (2 * 2 ^ n) = v + 2 ^ n" by simp
    with True n show ?thesis by (simp add: convert_int_def)
  next
    case False
    with r n show ?thesis by (simp add: representable_def convert_int_def)
  qed
qed

lemma loses_value_iff: "0 < int_bits tgt \<Longrightarrow> loses_value tgt v \<longleftrightarrow> \<not> representable tgt v"
  using convert_int_representable [of tgt v] convert_int_id [of tgt v]
  by (auto simp: loses_value_def)

text \<open>
  Claim C2. For a strictly narrower integer target and \<open>allow_int_overflow = false\<close>
  the cast of a column of the source type returns \<open>Invalid\<close> exactly when some non-null
  element is not representable in the target type, and it returns a column otherwise.
  When it succeeds, casting the result back to the source type succeeds and gives the
  input at every non-null position.
\<close>

theorem cast_int_narrowing:
  assumes narrow: "int_bits tgt < int_bits src" and pos: "0 < int_bits tgt"
    and typed: "\<forall>(valid, v) \<in> set col. valid \<longrightarrow> representable src v"
    and safe: "\<not> allow_int_overflow options"
  shows "(cast_int options src tgt col = Inl Invalid
            \<longleftrightarrow> (\<exists>(valid, v) \<in> set col. valid \<and> \<not> representable tgt v))
    \<and> ((\<exists>out. cast_int options src tgt col = Inr out)
            \<longleftrightarrow> (\<forall>(valid, v) \<in> set col. valid \<longrightarrow> representable tgt v))
    \<and> (\<forall>out. cast_int options src tgt col = Inr out \<longrightarrow>
         (\<exists>back. cast_int options tgt src out = Inr back \<and> same_valid_slots back col))"
proof -
  have ex: "list_ex (\<lambda>(valid, v). valid \<and> loses_value tgt v) col
      \<longleftrightarrow> (\<exists>(valid, v) \<in> set col. valid \<and> \<not> representable tgt v)"
    by (auto simp: list_ex_iff loses_value_iff [OF pos])
  have a: "cast_int options src tgt col = Inl Invalid
      \<longleftrightarrow> (\<exists>(valid, v) \<in> set col. valid \<and> \<not> representable tgt v)"
    using narrow safe by (simp add: cast_int_def ex del: list_ex_iff)
  have b: "(\<exists>out. cast_int options src tgt col = Inr out)
      \<longleftrightarrow> (\<forall>(valid, v) \<in> set col. valid \<longrightarrow> representable tgt v)"
    using narrow safe by (auto simp: cast_int_def ex simp del: list_ex_iff)
  have c: "\<exists>back. cast_int options tgt src out = Inr back \<and> same_valid_slots back col"
    if ok: "cast_int options src tgt col = Inr out" for out
  proof -
    from ok narrow safe
    have no: "\<not> list_ex (\<lambda>(valid, v). valid \<and> loses_value tgt v) col"
      and out: "out = map (\<lambda>(valid, v). (valid, convert_int tgt v)) col"
      by (auto simp: cast_int_def simp del: list_ex_iff split: if_splits)
    have widen: "cast_int options tgt src out = Inr (map (\<lambda>(valid, v). (valid, convert_int src v)) out)"
      using narrow by (simp add: cast_int_def)
    have src: "0 < int_bits src" using narrow by simp
    have "same_valid_slots (map (\<lambda>(valid, v). (valid, convert_int src v)) out) col"
      using no typed unfolding out
      by (induction col) (auto simp: same_valid_slots_def loses_value_def convert_int_id [OF _ src])
    with widen show ?thesis by simp
  qed
  from a b c show ?thesis by blast
qed

theorem cast_int_narrowing_witness:
  "int_bits Int16Type < int_bits Int32Type \<and> 0 < int_bits Int16Type
   \<and> list_all (\<lambda>(valid, v). representable Int32Type v)
        [(True, 0), (False, 70000), (True, 2000), (True, 1000), (True, 0)]
   \<and> \<not> allow_int_overflow safe_options
   \<and> cast_int safe_options Int32Type Int16Type
        [(True, 0), (False, 70000), (True, 2000), (True, 1000), (True, 0)]
       = Inr [(True, 0), (False, 4464), (True, 2000), (True, 1000), (True, 0)]
   \<and> cast_int safe_options Int32Type Int16Type
        [(True, 0), (False, 0), (True, 2000), (True, 70000), (True, 0)] = Inl Invalid
   \<and> (\<exists>(valid, v) \<in> set [(True, 0), (False, 0), (True, 2000), (True, 70000), (True, 0)].
        valid \<and> \<not> representable Int16Type v)
   \<and> (\<exists>back. cast_int safe_options Int16Type Int32Type
          [(True, 0), (False, 4464), (True, 2000), (True, 1000), (True, 0)] = Inr back
        \<and> same_valid_slots back [(True, 0), (False, 70000), (True, 2000), (True, 1000), (True, 0)])"
proof -
  have n: "int_bits Int16Type < int_bits Int32Type" and p: "0 < int_bits Int16Type"
    and s: "\<not> allow_int_overflow safe_options"
    by (simp_all add: safe_options_def)
  have t1: "\<forall>(valid, v) \<in> set [(True, 0), (False, 70000), (True, 2000), (True, 1000), (True, 0)].
        valid \<longrightarrow> representable Int32Type v"
    by (simp add: representable_def)
  have t2: "\<forall>(valid, v) \<in> set [(True, 0), (False, 0), (True, 2000), (True, 70000), (True, 0)].
        valid \<longrightarrow> representable Int32Type v"
    by (simp add: representable_def)
  have ok: "cast_int safe_options Int32Type Int16Type
        [(True, 0), (False, 70000), (True, 2000), (True, 1000), (True, 0)]
       = Inr [(True, 0), (False, 4464), (True, 2000), (True, 1000), (True, 0)]"
    by (simp add: cast_int_def safe_options_def loses_value_def convert_int_def)
  have bad: "cast_int safe_options Int32Type Int16Type
        [(True, 0), (False, 0), (True, 2000), (True, 70000), (True, 0)] = Inl Invalid"
    by (simp add: cast_int_def safe_options_def loses_value_def convert_int_def)
  have t3: "list_all (\<lambda>(valid, v). representable Int32Type v)
        [(True, 0), (False, 70000), (True, 2000), (True, 1000), (True, 0)]"
    by (simp add: representable_def)
  from cast_int_narrowing [OF n p t1 s] cast_int_narrowing [OF n p t2 s] n p s t3 ok bad
  show ?thesis by simp
qed

section \<open>The timestamp cast\<close>

lemma trunc_div_pos: "0 < r \<Longrightarrow> trunc_div v r = (if 0 \<le> v then v div r else - ((- v) div r))"
  by (auto simp: trunc_div_def)

lemma discards_sub_units_iff: "0 < r \<Longrightarrow> discards_sub_units r v \<longleftrightarrow> \<not> r dvd v"
proof -
  assume r: "0 < r"
  have pos: "(w div r) * r = w \<longleftrightarrow> r dvd w" for w :: int
    by (metis dvd_div_mult_self dvd_triv_right)
  show ?thesis
  proof (cases "0 \<le> v")
    case True
    with r pos [of v] show ?thesis by (simp add: discards_sub_units_def trunc_div_pos)
  next
    case False
    have "- ((- v) div r) * r = v \<longleftrightarrow> ((- v) div r) * r = - v" by auto
    also have "\<dots> \<longleftrightarrow> r dvd v" using pos [of "- v"] by simp
    finally show ?thesis using False r by (simp add: discards_sub_units_def trunc_div_pos)
  qed
qed

lemma unit_multiplier_pos: "0 < unit_multiplier u"
  by (cases u) simp_all

lemma unit_ratio: "unit_multiplier u < unit_multiplier v \<Longrightarrow>
  0 < unit_multiplier v div unit_multiplier u
  \<and> unit_multiplier v = (unit_multiplier v div unit_multiplier u) * unit_multiplier u"
  by (cases u; cases v) simp_all

text \<open>
  Claim C4. From a coarser to a finer unit the cast succeeds and multiplies every
  element by the integer ratio of the units. From a finer to a coarser unit with
  \<open>allow_time_truncate = false\<close> it succeeds exactly when every non-null element is a
  multiple of the ratio, and fails with \<open>Invalid\<close> otherwise; with
  \<open>allow_time_truncate = true\<close> every output element is the input divided by the ratio,
  rounded towards zero.
\<close>

theorem cast_timestamp_rescale:
  "(unit_multiplier src < unit_multiplier tgt \<longrightarrow>
      unit_multiplier tgt = (unit_multiplier tgt div unit_multiplier src) * unit_multiplier src
      \<and> cast_timestamp options src tgt col =
          Inr (map (\<lambda>(valid, v). (valid, v * (unit_multiplier tgt div unit_multiplier src))) col))
   \<and> (unit_multiplier tgt < unit_multiplier src \<longrightarrow>
      unit_multiplier src = (unit_multiplier src div unit_multiplier tgt) * unit_multiplier tgt
      \<and> (\<not> allow_time_truncate options \<longrightarrow>
           ((\<exists>out. cast_timestamp options src tgt col = Inr out)
              \<longleftrightarrow> (\<forall>(valid, v) \<in> set col. valid \<longrightarrow>
                    (unit_multiplier src div unit_multiplier tgt) dvd v))
           \<and> (cast_timestamp options src tgt col = Inl Invalid
              \<longleftrightarrow> \<not> (\<forall>(valid, v) \<in> set col. valid \<longrightarrow>
                    (unit_multiplier src div unit_multiplier tgt) dvd v)))
      \<and> (allow_time_truncate options \<longrightarrow>
           cast_timestamp options src tgt col =
             Inr (map (\<lambda>(valid, v). (valid,
                    if 0 \<le> v then v div (unit_multiplier src div unit_multiplier tgt)
                    else - ((- v) div (unit_multiplier src div unit_multiplier tgt)))) col)))"
proof -
  have coarse: "unit_multiplier tgt = (unit_multiplier tgt div unit_multiplier src) * unit_multiplier src
      \<and> cast_timestamp options src tgt col =
          Inr (map (\<lambda>(valid, v). (valid, v * (unit_multiplier tgt div unit_multiplier src))) col)"
    if "unit_multiplier src < unit_multiplier tgt"
    using that unit_ratio [OF that] by (simp add: cast_timestamp_def)
  define ratio where "ratio = unit_multiplier src div unit_multiplier tgt"
  have fine: "unit_multiplier src = ratio * unit_multiplier tgt
      \<and> (\<not> allow_time_truncate options \<longrightarrow>
           ((\<exists>out. cast_timestamp options src tgt col = Inr out)
              \<longleftrightarrow> (\<forall>(valid, v) \<in> set col. valid \<longrightarrow> ratio dvd v))
           \<and> (cast_timestamp options src tgt col = Inl Invalid
              \<longleftrightarrow> \<not> (\<forall>(valid, v) \<in> set col. valid \<longrightarrow> ratio dvd v)))
      \<and> (allow_time_truncate options \<longrightarrow>
           cast_timestamp options src tgt col =
             Inr (map (\<lambda>(valid, v). (valid,
                    if 0 \<le> v then v div ratio else - ((- v) div ratio))) col))"
    if lt: "unit_multiplier tgt < unit_multiplier src"
  proof -
    from unit_ratio [OF lt] have r: "0 < ratio"
      and m: "unit_multiplier src = ratio * unit_multiplier tgt"
      by (simp_all add: ratio_def)
    have ex: "list_ex (\<lambda>(valid, v). valid \<and> discards_sub_units ratio v) col
        \<longleftrightarrow> \<not> (\<forall>(valid, v) \<in> set col. valid \<longrightarrow> ratio dvd v)"
      by (auto simp: list_ex_iff discards_sub_units_iff [OF r])
    have c: "cast_timestamp options src tgt col =
        (if \<not> allow_time_truncate options
            \<and> list_ex (\<lambda>(valid, v). valid \<and> discards_sub_units ratio v) col
         then Inl Invalid
         else Inr (map (\<lambda>(valid, v). (valid, trunc_div v ratio)) col))"
      using lt by (simp add: cast_timestamp_def ratio_def Let_def del: list_ex_iff)
    have t: "(\<lambda>(valid, v). (valid, trunc_div v ratio))
        = (\<lambda>(valid, v). (valid, if 0 \<le> v then v div ratio else - ((- v) div ratio)))"
      by (simp add: trunc_div_pos [OF r])
    show ?thesis
      unfolding c ex t using m by auto
  qed
  from coarse fine show ?thesis unfolding ratio_def by blast
qed

theorem cast_timestamp_rescale_witness:
  "unit_multiplier SECOND < unit_multiplier MILLI
   \<and> cast_timestamp safe_options SECOND MILLI [(True, 0), (False, 100), (True, 200), (True, 1)]
       = Inr [(True, 0), (False, 100000), (True, 200000), (True, 1000)]
   \<and> unit_multiplier SECOND < unit_multiplier MILLI
   \<and> \<not> allow_time_truncate safe_options
   \<and> cast_timestamp safe_options MILLI SECOND [(True, 0), (False, 100123), (True, 200456)]
       = Inl Invalid
   \<and> \<not> (1000 :: int) dvd 200456
   \<and> allow_time_truncate (safe_options \<lparr> allow_time_truncate := True \<rparr>)
   \<and> cast_timestamp (safe_options \<lparr> allow_time_truncate := True \<rparr>) MILLI SECOND
        [(True, 0), (False, 100123), (True, 200456), (True, - 1123)]
       = Inr [(True, 0), (False, 100), (True, 200), (True, - 1)]"
proof -
  have a: "unit_multiplier SECOND < unit_multiplier MILLI" by simp
  have n: "\<not> allow_time_truncate safe_options" by (simp add: safe_options_def)
  have y: "allow_time_truncate (safe_options \<lparr> allow_time_truncate := True \<rparr>)" by simp
  have d: "\<not> (1000 :: int) dvd 200456" by simp
  from cast_timestamp_rescale [of SECOND MILLI safe_options
      "[(True, 0), (False, 100), (True, 200), (True, 1)]"]
    cast_timestamp_rescale [of MILLI SECOND safe_options
      "[(True, 0), (False, 100123), (True, 200456)]"]
    cast_timestamp_rescale [of MILLI SECOND "safe_options \<lparr> allow_time_truncate := True \<rparr>"
      "[(True, 0), (False, 100123), (True, 200456), (True, - 1123)]"]
    a n y d
  show ?thesis by simp
qed

section \<open>Null slots and the checks of the casts\<close>

lemma same_valid_list_ex:
  "same_valid_slots a b \<Longrightarrow>
   list_ex (\<lambda>(valid, v). valid \<and> P v) a = list_ex (\<lambda>(valid, v). valid \<and> P v) b"
  unfolding same_valid_slots_def
  by (induction a b rule: list_all2_induct) (auto simp del: list_ex_iff)

lemma same_valid_map:
  "same_valid_slots a b \<Longrightarrow>
   same_valid_slots (map (\<lambda>(valid, v). (valid, f v)) a) (map (\<lambda>(valid, v). (valid, f v)) b)"
  unfolding same_valid_slots_def
  by (induction a b rule: list_all2_induct) auto

lemma same_valid_all_null:
  "same_valid_slots a b \<Longrightarrow>
   same_valid_slots (map (\<lambda>(valid, v). (False, c)) a) (map (\<lambda>(valid, v). (False, c)) b)"
  unfolding same_valid_slots_def
  by (induction a b rule: list_all2_induct) auto

lemma agree_cast_elements:
  "same_valid_slots a b \<Longrightarrow> agree (cast_elements c fails conv a) (cast_elements c fails conv b)"
  using same_valid_list_ex [of a b fails] same_valid_map [of a b conv]
  by (simp add: agree_def cast_elements_def del: list_ex_iff)

lemma agree_cast_int:
  "same_valid_slots a b \<Longrightarrow> agree (cast_int options src tgt a) (cast_int options src tgt b)"
  using same_valid_list_ex [of a b "loses_value tgt"] same_valid_map [of a b "convert_int tgt"]
  by (simp add: agree_def cast_int_def del: list_ex_iff)

lemma agree_cast_timestamp:
  "same_valid_slots a b \<Longrightarrow> agree (cast_timestamp options u u' a) (cast_timestamp options u u' b)"
  using same_valid_list_ex [of a b "discards_sub_units (unit_multiplier u div unit_multiplier u')"]
    same_valid_map [of a b "\<lambda>v. v * (unit_multiplier u' div unit_multiplier u)"]
    same_valid_map [of a b "\<lambda>v. trunc_div v (unit_multiplier u div unit_multiplier u')"]
  by (simp add: agree_def cast_timestamp_def Let_def del: list_ex_iff)

lemma agree_then:
  assumes "agree r r'" and "\<And>x y. same_valid_slots x y \<Longrightarrow> agree (f x) (f y)"
  shows "agree (case r of Inl e \<Rightarrow> Inl e | Inr x \<Rightarrow> f x) (case r' of Inl e \<Rightarrow> Inl e | Inr y \<Rightarrow> f y)"
  using assms by (cases r; cases r') (simp_all add: agree_def)

lemma agree_timestamp_to_date64:
  "same_valid_slots a b \<Longrightarrow> agree (timestamp_to_date64 options u a) (timestamp_to_date64 options u b)"
  unfolding timestamp_to_date64_def
  by (rule agree_then [OF agree_cast_timestamp agree_cast_elements])

lemma agree_timestamp_to_date32:
  "same_valid_slots a b \<Longrightarrow> agree (timestamp_to_date32 options u a) (timestamp_to_date32 options u b)"
  unfolding timestamp_to_date32_def
  by (rule agree_then [OF agree_cast_timestamp agree_cast_elements])

lemma columns_agree_as_ints: "agree r r' \<Longrightarrow> columns_agree (as_ints r) (as_ints r')"
  by (cases r; cases r') (simp_all add: agree_def columns_agree_def as_ints_def)

lemma columns_agree_Inr: "columns_agree (Inr x) (Inr y) \<longleftrightarrow> same_valid_columns x y"
  by (simp add: columns_agree_def)

lemma columns_agree_Inl: "columns_agree (Inl e) (Inl e)"
  by (simp add: columns_agree_def)

lemma columns_agree_cast_ints:
  assumes same: "same_valid_slots a b"
  shows "columns_agree (cast_ints fo options src tgt a) (cast_ints fo options src tgt b)"
proof -
  note facts = columns_agree_Inr columns_agree_Inl columns_agree_as_ints same
    same_valid_map [OF same] same_valid_all_null [OF same]
    agree_cast_int [OF same] agree_cast_timestamp [OF same]
    agree_timestamp_to_date64 [OF same] agree_timestamp_to_date32 [OF same]
    agree_cast_elements [OF same] date32_to_date64_def date64_to_date32_def
  show ?thesis
    by (cases "(fo, options, src, tgt, a)" rule: cast_ints.cases) (simp_all add: facts)
qed

lemma columns_agree_cast_floats:
  assumes same: "same_valid_slots a b"
  shows "columns_agree (cast_floats fo aft options tgt a) (cast_floats fo aft options tgt b)"
proof -
  note facts = columns_agree_Inr columns_agree_Inl columns_agree_as_ints same
    same_valid_map [OF same] agree_cast_elements [OF same] float_to_int_def
  show ?thesis
    by (cases tgt) (simp_all add: facts)
qed

lemma columns_agree_cast:
  assumes same: "same_valid_columns a b"
  shows "columns_agree (cast fo aft options src tgt a) (cast fo aft options src tgt b)"
proof (cases a)
  case (IntColumn x)
  with same obtain y where b: "b = IntColumn y" and s: "same_valid_slots x y"
    by (cases b) simp_all
  from columns_agree_cast_ints [OF s, of fo options src tgt] s show ?thesis
    unfolding IntColumn b by (simp add: cast_def columns_agree_def)
next
  case (FloatColumn x)
  with same obtain y where b: "b = FloatColumn y" and s: "same_valid_slots x y"
    by (cases b) simp_all
  from columns_agree_cast_floats [OF s, of fo aft options tgt] s show ?thesis
    unfolding FloatColumn b by (simp add: cast_def columns_agree_def)
qed

text \<open>
  Claim C6. Two arrays with the same validity bits and the same values at the valid
  positions get the same answer from the cast, whatever the source type, the target type
  and the options: both casts fail, with the same error, or both succeed, and the two
  outputs again have the same validity bits and the same values at the valid positions.
  The cast is the whole dispatch matrix: under \<open>allow_int_overflow\<close> the casts between
  integers and from a floating-point type to an integer, under \<open>allow_time_truncate\<close>
  the casts between timestamps, between times, from a timestamp to a date and from
  \<open>Date64\<close> to \<open>Date32\<close>.
\<close>

theorem cast_ignores_null_slots:
  assumes same: "same_valid_columns a b"
  shows "(\<forall>e. cast fo allow_float_truncate options src tgt a = Inl e
            \<longleftrightarrow> cast fo allow_float_truncate options src tgt b = Inl e)
    \<and> ((\<exists>x. cast fo allow_float_truncate options src tgt a = Inr x)
            \<longleftrightarrow> (\<exists>y. cast fo allow_float_truncate options src tgt b = Inr y))
    \<and> (\<forall>x y. cast fo allow_float_truncate options src tgt a = Inr x
            \<and> cast fo allow_float_truncate options src tgt b = Inr y
          \<longrightarrow> same_valid_columns x y)"
proof -
  from columns_agree_cast [OF same, of fo allow_float_truncate options src tgt]
  show ?thesis
    by (cases "cast fo allow_float_truncate options src tgt a";
        cases "cast fo allow_float_truncate options src tgt b")
      (simp_all add: columns_agree_def)
qed

theorem cast_ignores_null_slots_witness:
  "same_valid_columns
     (IntColumn [(True, 0), (False, 70000), (True, 2000), (True, 1000), (True, 0)])
     (IntColumn [(True, 0), (False, 0), (True, 2000), (True, 1000), (True, 0)] :: int cast_column)
   \<and> cast half_floats True safe_options (TInt Int32Type) (TInt Int16Type)
        (IntColumn [(True, 0), (False, 70000), (True, 2000), (True, 1000), (True, 0)])
       = Inr (IntColumn [(True, 0), (False, 4464), (True, 2000), (True, 1000), (True, 0)])
   \<and> cast half_floats True safe_options (TInt Int32Type) (TInt Int16Type)
        (IntColumn [(True, 0), (False, 0), (True, 2000), (True, 1000), (True, 0)])
       = Inr (IntColumn [(True, 0), (False, 0), (True, 2000), (True, 1000), (True, 0)])
   \<and> same_valid_columns
        (IntColumn [(True, 0), (False, 4464), (True, 2000), (True, 1000), (True, 0)])
        (IntColumn [(True, 0), (False, 0), (True, 2000), (True, 1000), (True, 0)] :: int cast_column)
   \<and> same_valid_columns
        (IntColumn [(True, 946684800), (True, 946771200), (False, 1)])
        (IntColumn [(True, 946684800), (True, 946771200), (False, 0)] :: int cast_column)
   \<and> cast half_floats True safe_options (TTimestamp SECOND) TDate64
        (IntColumn [(True, 946684800), (True, 946771200), (False, 1)])
       = Inr (IntColumn [(True, 946684800000), (True, 946771200000), (False, 0)])
   \<and> cast half_floats True safe_options (TTimestamp SECOND) TDate64
        (IntColumn [(True, 946684800), (True, 946771200), (False, 0)])
       = Inr (IntColumn [(True, 946684800000), (True, 946771200000), (False, 0)])
   \<and> cast half_floats True safe_options (TTimestamp SECOND) TDate32
        (IntColumn [(True, 946684800), (True, 946771200), (False, 1)])
       = Inr (IntColumn [(True, 10957), (True, 10958), (False, 0)])
   \<and> cast half_floats True safe_options (TTimestamp SECOND) TDate64
        (IntColumn [(True, 946684801), (True, 946771200), (False, 0)]) = Inl Invalid
   \<and> same_valid_columns
        (FloatColumn [(True, 3), (False, 20000000000), (True, 1), (True, - 3), (True, 11)])
        (FloatColumn [(True, 3), (False, 0), (True, 1), (True, - 3), (True, 11 :: int)])
   \<and> cast half_floats True safe_options TDouble (TInt Int32Type)
        (FloatColumn [(True, 3), (False, 20000000000), (True, 1), (True, - 3), (True, 11)])
       = Inr (IntColumn [(True, 1), (False, 1410065408), (True, 0), (True, - 1), (True, 5)])
   \<and> cast half_floats True safe_options TDouble (TInt Int32Type)
        (FloatColumn [(True, 3), (False, 0), (True, 1), (True, - 3), (True, 11)])
       = Inr (IntColumn [(True, 1), (False, 0), (True, 0), (True, - 1), (True, 5)])"
proof -
  have s1: "same_valid_columns
     (IntColumn [(True, 0), (False, 70000), (True, 2000), (True, 1000), (True, 0)])
     (IntColumn [(True, 0), (False, 0), (True, 2000), (True, 1000), (True, 0)] :: int cast_column)"
    and s2: "same_valid_columns
        (IntColumn [(True, 946684800), (True, 946771200), (False, 1)])
        (IntColumn [(True, 946684800), (True, 946771200), (False, 0)] :: int cast_column)"
    and s3: "same_valid_columns
        (FloatColumn [(True, 3), (False, 20000000000), (True, 1), (True, - 3), (True, 11)])
        (FloatColumn [(True, 3), (False, 0), (True, 1), (True, - 3), (True, 11 :: int)])"
    by (simp_all add: same_valid_slots_def)
  have i: "cast half_floats True safe_options (TInt Int32Type) (TInt Int16Type)
        (IntColumn [(True, 0), (False, 70000), (True, 2000), (True, 1000), (True, 0)])
       = Inr (IntColumn [(True, 0), (False, 4464), (True, 2000), (True, 1000), (True, 0)])"
    "cast half_floats True safe_options (TInt Int32Type) (TInt Int16Type)
        (IntColumn [(True, 0), (False, 0), (True, 2000), (True, 1000), (True, 0)])
       = Inr (IntColumn [(True, 0), (False, 0), (True, 2000), (True, 1000), (True, 0)])"
    by (simp_all add: cast_def as_ints_def cast_int_def safe_options_def loses_value_def
        convert_int_def)
  have t: "cast half_floats True safe_options (TTimestamp SECOND) TDate64
        (IntColumn [(True, 946684800), (True, 946771200), (False, 1)])
       = Inr (IntColumn [(True, 946684800000), (True, 946771200000), (False, 0)])"
    "cast half_floats True safe_options (TTimestamp SECOND) TDate64
        (IntColumn [(True, 946684800), (True, 946771200), (False, 0)])
       = Inr (IntColumn [(True, 946684800000), (True, 946771200000), (False, 0)])"
    "cast half_floats True safe_options (TTimestamp SECOND) TDate32
        (IntColumn [(True, 946684800), (True, 946771200), (False, 1)])
       = Inr (IntColumn [(True, 10957), (True, 10958), (False, 0)])"
    "cast half_floats True safe_options (TTimestamp SECOND) TDate64
        (IntColumn [(True, 946684801), (True, 946771200), (False, 0)]) = Inl Invalid"
    by (simp_all add: cast_def as_ints_def timestamp_to_date64_def timestamp_to_date32_def
        cast_timestamp_def cast_elements_def safe_options_def)
  have f: "cast half_floats True safe_options TDouble (TInt Int32Type)
        (FloatColumn [(True, 3), (False, 20000000000), (True, 1), (True, - 3), (True, 11)])
       = Inr (IntColumn [(True, 1), (False, 1410065408), (True, 0), (True, - 1), (True, 5)])"
    "cast half_floats True safe_options TDouble (TInt Int32Type)
        (FloatColumn [(True, 3), (False, 0), (True, 1), (True, - 3), (True, 11)])
       = Inr (IntColumn [(True, 1), (False, 0), (True, 0), (True, - 1), (True, 5)])"
    by (simp_all add: cast_def as_ints_def float_to_int_def cast_elements_def safe_options_def
        half_floats_def trunc_div_def loses_value_def convert_int_def)
  from cast_ignores_null_slots [OF s1, of half_floats True safe_options "TInt Int32Type" "TInt Int16Type"]
    cast_ignores_null_slots [OF s2, of half_floats True safe_options "TTimestamp SECOND" TDate64]
    cast_ignores_null_slots [OF s3, of half_floats True safe_options TDouble "TInt Int32Type"]
    s1 s2 s3 i t f
  show ?thesis by simp
qed

text \<open>
  The cast of the dispatch is the integer cast between two integer types and the
  timestamp cast between two timestamp types.
\<close>

lemma cast_between_integers:
  "0 < int_bits s \<Longrightarrow> 0 < int_bits t \<Longrightarrow> s \<noteq> t \<Longrightarrow>
   cast fo allow_float_truncate options (TInt s) (TInt t) (IntColumn col)
     = as_ints (cast_int options s t col)"
  by (simp add: cast_def)

lemma cast_between_timestamps:
  "u \<noteq> u' \<Longrightarrow>
   cast fo allow_float_truncate options (TTimestamp u) (TTimestamp u') (IntColumn col)
     = as_ints (cast_timestamp options u u' col)"
  by (simp add: cast_def)

text \<open>
  Inputs of the repository's tests of the cast (compute-test.cc, \<open>TestCast\<close>), with the
  outputs the tests expect; the floating-point inputs 1.0, 5.0, 1.5, 0.5, -1.5 and 5.5
  are written as twice their value.
\<close>

lemma cast_on_test_inputs:
  "cast half_floats True safe_options (TInt Int8Type) TBool
      (IntColumn [(True, 0), (False, 1), (True, 127), (True, - 1), (True, 0)])
     = Inr (IntColumn [(True, 0), (False, 1), (True, 1), (True, 1), (True, 0)])"
  "cast half_floats True safe_options TDouble TBool
      (FloatColumn [(True, 2), (False, 0), (True, 0), (True, - 2), (True, 10)])
     = Inr (IntColumn [(True, 1), (False, 0), (True, 0), (True, 1), (True, 1)])"
  "cast half_floats True safe_options (TInt UInt8Type) (TInt Int16Type)
      (IntColumn [(True, 0), (False, 100), (True, 200), (True, 255), (True, 0)])
     = Inr (IntColumn [(True, 0), (False, 100), (True, 200), (True, 255), (True, 0)])"
  "cast half_floats True safe_options TDouble (TInt Int32Type)
      (FloatColumn [(True, 3), (False, 0), (True, 1), (True, - 3), (True, 11)])
     = Inr (IntColumn [(True, 1), (False, 0), (True, 0), (True, - 1), (True, 5)])"
  "cast half_floats True safe_options (TInt Int16Type) (TInt UInt8Type)
      (IntColumn [(True, 0), (False, 100), (True, 256), (True, 0), (True, 0)]) = Inl Invalid"
  "cast half_floats True safe_options (TInt Int16Type) (TInt UInt8Type)
      (IntColumn [(True, 0), (False, 100), (True, - 1), (True, 0), (True, 0)]) = Inl Invalid"
  "cast half_floats True (safe_options \<lparr> allow_int_overflow := True \<rparr>)
      (TInt Int32Type) (TInt Int16Type)
      (IntColumn [(True, 0), (False, 1000), (True, 2000), (True, - 70000), (True, 0)])
     = Inr (IntColumn [(True, 0), (False, 1000), (True, 2000), (True, - 4464), (True, 0)])"
  "cast half_floats True safe_options (TTimestamp NANO) TDate32
      (IntColumn [(True, 946684800000000000), (True, 946771200000000000), (False, 0)])
     = Inr (IntColumn [(True, 10957), (True, 10958), (False, 0)])"
  "cast half_floats True safe_options (TTimestamp MICRO) TDate64
      (IntColumn [(True, 946684800000001), (True, 946771200000001), (False, 0)]) = Inl Invalid"
  "cast half_floats True safe_options (TTime32 SECOND) (TTime64 MICRO)
      (IntColumn [(True, 0), (False, 100), (True, 200), (True, 1), (True, 2)])
     = Inr (IntColumn [(True, 0), (False, 100000000), (True, 200000000), (True, 1000000),
          (True, 2000000)])"
  "cast half_floats True safe_options TDate32 TDate64
      (IntColumn [(True, 0), (False, 100), (True, 200), (True, 1), (True, 2)])
     = Inr (IntColumn [(True, 0), (False, 8640000000), (True, 17280000000), (True, 86400000),
          (True, 172800000)])"
  "cast half_floats True (safe_options \<lparr> allow_time_truncate := True \<rparr>) TDate64 TDate32
      (IntColumn [(True, 0), (False, 8640000123), (True, 17280000456), (True, 86400123),
          (True, 172800456)])
     = Inr (IntColumn [(True, 0), (False, 100), (True, 200), (True, 1), (True, 2)])"
  "cast half_floats True safe_options TDate64 TDate32
      (IntColumn [(True, 0), (False, 8640000123), (True, 17280000456), (True, 86400123),
          (True, 172800456)]) = Inl Invalid"
  "cast half_floats True safe_options (TInt Int64Type) (TTimestamp NANO)
      (IntColumn [(True, 0), (False, 70000), (True, 2000), (True, 1000), (True, 0)])
     = Inr (IntColumn [(True, 0), (False, 70000), (True, 2000), (True, 1000), (True, 0)])"
  "cast half_floats True safe_options TNull (TInt Int32Type)
      (IntColumn [(False, 0), (False, 0), (False, 0)])
     = Inr (IntColumn [(False, 0), (False, 0), (False, 0)])"
  by (simp_all add: cast_def as_ints_def cast_int_def cast_timestamp_def timestamp_to_date64_def
      timestamp_to_date32_def date32_to_date64_def date64_to_date32_def float_to_int_def
      cast_elements_def safe_options_def half_floats_def loses_value_def convert_int_def
      discards_sub_units_def trunc_div_def)

section \<open>The dictionary encoder's size counter\<close>

lemma to_int32_add_left: "to_int32 (to_int32 a + b) = to_int32 (a + b)"
proof -
  have "to_int32 a + b + 2147483648 = (a + 2147483648) mod 4294967296 + b"
    by (simp add: to_int32_def)
  then have "(to_int32 a + b + 2147483648) mod 4294967296
      = ((a + 2147483648) mod 4294967296 + b) mod 4294967296"
    by (simp only:)
  also have "\<dots> = (a + 2147483648 + b) mod 4294967296"
    by (rule mod_add_left_eq)
  also have "a + 2147483648 + b = a + b + 2147483648" by simp
  finally show ?thesis by (simp add: to_int32_def)
qed

lemma to_int32_add_right: "to_int32 (a + to_int32 b) = to_int32 (a + b)"
  using to_int32_add_left [of b a] by (simp add: add.commute)

lemma to_int32_id: "- 2147483648 \<le> x \<Longrightarrow> x < 2147483648 \<Longrightarrow> to_int32 x = x"
  by (simp add: to_int32_def)

lemma to_int32_nat: "int n < 2147483648 \<Longrightarrow> to_int32 (int n) = int n"
  by (simp add: to_int32_def)

lemma memo_get_None: "memo_get v memo = None \<longleftrightarrow> v \<notin> set memo"
  by (induction memo) auto

lemma put_key_fields:
  "memo_table (put_key key added enc) =
     (if key \<in> set (memo_table enc) then memo_table enc else memo_table enc @ [key])"
  "dict_encoded_size (put_key key added enc) =
     (if key \<in> set (memo_table enc) then dict_encoded_size enc
      else to_int32 (dict_encoded_size enc + added))"
  "type_length (put_key key added enc) = type_length enc"
  using memo_get_None [of key "memo_table enc"]
  by (auto simp: put_key_def GetOrInsert_def split: option.splits)

lemma put_loop_invariant:
  assumes step: "\<And>v e e'. I e \<Longrightarrow> put v e = Inr e' \<Longrightarrow> I e'"
  shows "I enc \<Longrightarrow> put_loop put src i n enc = Inr enc' \<Longrightarrow> I enc'"
proof (induction n arbitrary: i enc)
  case 0
  then show ?case by simp
next
  case (Suc n)
  from Suc.prems(2) obtain e where p: "put (src ! i) enc = Inr e"
    and rest: "put_loop put src (Suc i) n e = Inr enc'"
    by (simp split: if_splits sum.splits)
  from step [OF Suc.prems(1) p] rest show ?case by (rule Suc.IH)
qed

lemma put_spaced_loop_invariant:
  assumes step: "\<And>v e e'. I e \<Longrightarrow> put v e = Inr e' \<Longrightarrow> I e'"
  shows "I enc \<Longrightarrow> put_spaced_loop put src bits off i n enc = Inr enc' \<Longrightarrow> I enc'"
proof (induction n arbitrary: i enc)
  case 0
  then show ?case by simp
next
  case (Suc n)
  show ?case
  proof (cases "bits ! (off + i)")
    case True
    with Suc.prems(2) obtain e where p: "put (src ! i) enc = Inr e"
      and rest: "put_spaced_loop put src bits off (Suc i) n e = Inr enc'"
      by (simp split: if_splits sum.splits)
    from step [OF Suc.prems(1) p] rest show ?thesis by (rule Suc.IH)
  next
    case False
    with Suc.prems(2) have "put_spaced_loop put src bits off (Suc i) n enc = Inr enc'"
      by (simp split: if_splits)
    with Suc.prems(1) show ?thesis by (rule Suc.IH)
  qed
qed

lemma run_call_invariant:
  assumes step: "\<And>v e e'. I e \<Longrightarrow> put v e = Inr e' \<Longrightarrow> I e'"
  shows "I enc \<Longrightarrow> run_call put c enc = Inr enc' \<Longrightarrow> I enc'"
proof (cases c)
  case (CallPut v)
  assume "I enc" "run_call put c enc = Inr enc'"
  with CallPut show ?thesis using step [of enc v enc'] by simp
next
  case (CallPutMany src n)
  assume "I enc" "run_call put c enc = Inr enc'"
  with CallPutMany show ?thesis
    using put_loop_invariant [of I put enc src 0 n enc', OF step] by (simp add: Put_many_def)
next
  case (CallPutSpaced src n bits off)
  assume "I enc" "run_call put c enc = Inr enc'"
  with CallPutSpaced show ?thesis
    using put_spaced_loop_invariant [of I put enc src bits off 0 n enc', OF step]
    by (simp add: PutSpaced_def)
qed

lemma run_calls_invariant:
  assumes step: "\<And>v e e'. I e \<Longrightarrow> put v e = Inr e' \<Longrightarrow> I e'"
  shows "I enc \<Longrightarrow> run_calls put cs enc = Inr enc' \<Longrightarrow> I enc'"
proof (induction cs arbitrary: enc)
  case Nil
  then show ?case by simp
next
  case (Cons c cs)
  from Cons.prems(2) obtain e where p: "run_call put c enc = Inr e"
    and rest: "run_calls put cs e = Inr enc'"
    by (simp split: sum.splits)
  from run_call_invariant [of I put enc c e, OF step Cons.prems(1) p] rest
  show ?case by (rule Cons.IH)
qed

lemma length_le_bytes: "length (le_bytes n w) = n"
  by (simp add: le_bytes_def)

lemma length_WriteDict:
  "length (WriteDict (enc :: 'a::len word dict_encoder)) = LENGTH('a) div 8 * length (memo_table enc)"
  by (simp add: WriteDict_def length_concat comp_def length_le_bytes sizeof_word_def sum_list_triv)

lemma length_WriteDict_ByteArray:
  "length (WriteDict_ByteArray enc) = (\<Sum>v\<leftarrow>memo_table enc. 4 + length v)"
  by (simp add: WriteDict_ByteArray_def length_concat comp_def length_le_bytes)

lemma sum_list_const: "(\<forall>x \<in> set xs. f x = (c::nat)) \<Longrightarrow> sum_list (map f xs) = c * length xs"
  by (induction xs) simp_all


lemma Put_counts:
  assumes "counts_WriteDict enc" and "Put v enc = Inr enc'"
  shows "counts_WriteDict enc'"
proof -
  from assms(2) have e: "enc' = put_key v (to_int32 (int (sizeof_word v))) enc"
    by (simp add: Put_def)
  show ?thesis
  proof (cases "v \<in> set (memo_table enc)")
    case True
    with assms(1) show ?thesis
      by (simp add: e counts_WriteDict_def put_key_fields length_WriteDict)
  next
    case False
    with assms(1) show ?thesis
      by (simp add: e counts_WriteDict_def put_key_fields length_WriteDict
          to_int32_add_left to_int32_add_right sizeof_word_def add.commute)
  qed
qed

lemma Put_ByteArray_counts:
  assumes "counts_ByteArray enc" and "Put_ByteArray v enc = Inr enc'"
  shows "counts_ByteArray enc'"
proof -
  from assms(2) have e: "enc' = put_key v (to_int32 (int (length v) + 4)) enc"
    by (simp add: Put_ByteArray_def split: if_splits)
  show ?thesis
  proof (cases "v \<in> set (memo_table enc)")
    case True
    with assms(1) show ?thesis
      by (simp add: e counts_ByteArray_def put_key_fields length_WriteDict_ByteArray)
  next
    case False
    with assms(1) show ?thesis
      by (simp add: e counts_ByteArray_def put_key_fields length_WriteDict_ByteArray
          to_int32_add_left to_int32_add_right add.commute add.left_commute)
  qed
qed

lemma Put_FLBA_counts:
  assumes "counts_FLBA enc" and "Put_FLBA v enc = Inr enc'"
  shows "counts_FLBA enc'"
proof -
  from assms(2) have tl: "0 \<le> type_length enc" "type_length enc \<le> int (length v)"
    and e: "enc' = put_key (take (nat (type_length enc)) v) (type_length enc) enc"
    by (simp_all add: Put_FLBA_def split: if_splits)
  from tl have len: "int (length (take (nat (type_length enc)) v)) = type_length enc"
    by simp
  show ?thesis
  proof (cases "take (nat (type_length enc)) v \<in> set (memo_table enc)")
    case True
    with assms(1) show ?thesis
      by (simp add: e counts_FLBA_def put_key_fields)
  next
    case False
    with assms(1) len show ?thesis
      by (simp add: e counts_FLBA_def put_key_fields to_int32_add_left to_int32_add_right
          distrib_left add.commute del: length_take)
  qed
qed

lemma counts_FLBA_WriteDict:
  assumes "counts_FLBA enc" and "0 \<le> type_length enc"
  shows "\<exists>bytes. WriteDict_FLBA enc = Inr bytes
    \<and> int (length bytes) = type_length enc * int (length (memo_table enc))
    \<and> dict_encoded_size enc = to_int32 (int (length bytes))"
proof -
  from assms have all: "\<forall>v \<in> set (memo_table enc). length v = nat (type_length enc)"
    by (auto simp: counts_FLBA_def list_all_iff)
  then have "\<forall>v \<in> set (memo_table enc).
      length (take (nat (type_length enc)) v) = nat (type_length enc)"
    by simp
  then have "length (concat (map (take (nat (type_length enc))) (memo_table enc)))
      = nat (type_length enc) * length (memo_table enc)"
    by (simp add: length_concat comp_def sum_list_const del: length_take)
  then have "int (length (concat (map (take (nat (type_length enc))) (memo_table enc))))
      = type_length enc * int (length (memo_table enc))"
    using assms(2) by simp
  with assms all show ?thesis
    by (simp add: WriteDict_FLBA_def counts_FLBA_def)
qed

lemma Put_FLBA_type_length: "Put_FLBA v e = Inr e' \<Longrightarrow> type_length e' = type_length e"
  by (auto simp: Put_FLBA_def put_key_fields split: if_splits)


text \<open>
  Claim C8, as the spec states it, at one input: after \<open>Put\<close> of one byte array of
  2147483644 bytes \<open>WriteDict\<close> writes 2147483648 bytes, four of length and the value,
  and \<open>dict_encoded_size_\<close>, an \<open>int\<close>, is -2147483648.
\<close>

theorem dict_encoded_size_of_huge_entry:
  "run_calls Put_ByteArray [CallPut (replicate 2147483644 0)] (DictEncoder (- 1)) = Inr huge_entry
   \<and> dict_encoded_size huge_entry = - 2147483648
   \<and> int (length (WriteDict_ByteArray huge_entry)) = 2147483648"
  by (simp add: Put_ByteArray_def put_key_def GetOrInsert_def DictEncoder_def huge_entry_def
      to_int32_def length_WriteDict_ByteArray)

text \<open>
  Claim C8, amended. After any sequence of \<open>Put\<close>, \<open>Put\<close> of many and \<open>PutSpaced\<close>
  on a new encoder, \<open>dict_encoded_size\<close> is the number of bytes \<open>WriteDict\<close> writes
  whenever that number is below \<open>2^31\<close> (in general it is that number as an \<open>int\<close>):
  \<open>sizeof(T)\<close> per distinct value for a primitive type, four bytes and the length per
  distinct value for byte arrays, \<open>type_length\<close> per distinct value for fixed-length
  byte arrays. A \<open>Put\<close> of a value already in the table leaves the counter as it is;
  a \<open>Put\<close> of a new value adds the size of that value.
\<close>

theorem dict_encoded_size_counts_WriteDict:
  "(run_calls Put calls (DictEncoder tlen) = Inr (enc :: 'a::len word dict_encoder) \<longrightarrow>
      length (WriteDict enc) = LENGTH('a) div 8 * length (memo_table enc)
      \<and> dict_encoded_size enc = to_int32 (int (length (WriteDict enc)))
      \<and> (int (length (WriteDict enc)) < 2147483648 \<longrightarrow>
            dict_encoded_size enc = int (length (WriteDict enc))))
   \<and> (run_calls Put_ByteArray bcalls (DictEncoder tlen) = Inr benc \<longrightarrow>
      length (WriteDict_ByteArray benc) = (\<Sum>v\<leftarrow>memo_table benc. 4 + length v)
      \<and> dict_encoded_size benc = to_int32 (int (length (WriteDict_ByteArray benc)))
      \<and> (int (length (WriteDict_ByteArray benc)) < 2147483648 \<longrightarrow>
            dict_encoded_size benc = int (length (WriteDict_ByteArray benc))))
   \<and> (run_calls Put_FLBA fcalls (DictEncoder tlen) = Inr fenc \<and> 0 \<le> tlen \<longrightarrow>
      (\<exists>bytes. WriteDict_FLBA fenc = Inr bytes
         \<and> int (length bytes) = tlen * int (length (memo_table fenc))
         \<and> dict_encoded_size fenc = to_int32 (int (length bytes))
         \<and> (int (length bytes) < 2147483648 \<longrightarrow> dict_encoded_size fenc = int (length bytes))))
   \<and> (Put (v :: 'a word) e = Inr e' \<longrightarrow>
         dict_encoded_size e' =
           (if v \<in> set (memo_table e) then dict_encoded_size e
            else to_int32 (dict_encoded_size e + int (LENGTH('a) div 8))))
   \<and> (Put_ByteArray b be = Inr be' \<longrightarrow>
         dict_encoded_size be' =
           (if b \<in> set (memo_table be) then dict_encoded_size be
            else to_int32 (dict_encoded_size be + (4 + int (length b)))))
   \<and> (Put_FLBA f fe = Inr fe' \<longrightarrow>
         dict_encoded_size fe' =
           (if take (nat (type_length fe)) f \<in> set (memo_table fe) then dict_encoded_size fe
            else to_int32 (dict_encoded_size fe + type_length fe)))"
proof -
  have prim: "length (WriteDict enc) = LENGTH('a) div 8 * length (memo_table enc)
      \<and> dict_encoded_size enc = to_int32 (int (length (WriteDict enc)))
      \<and> (int (length (WriteDict enc)) < 2147483648 \<longrightarrow>
            dict_encoded_size enc = int (length (WriteDict enc)))"
    if run: "run_calls Put calls (DictEncoder tlen) = Inr enc"
  proof -
    have init: "counts_WriteDict (DictEncoder tlen :: 'a word dict_encoder)"
      by (simp add: counts_WriteDict_def DictEncoder_def WriteDict_def to_int32_def)
    have step: "\<And>v e e'. counts_WriteDict e \<Longrightarrow> Put v e = Inr e' \<Longrightarrow> counts_WriteDict e'"
      by (rule Put_counts)
    have "counts_WriteDict enc"
      by (rule run_calls_invariant [of counts_WriteDict Put, OF step init run])
    then show ?thesis
      using to_int32_nat [of "length (WriteDict enc)"] length_WriteDict [of enc]
      by (simp add: counts_WriteDict_def)
  qed
  have bytes: "length (WriteDict_ByteArray benc) = (\<Sum>v\<leftarrow>memo_table benc. 4 + length v)
      \<and> dict_encoded_size benc = to_int32 (int (length (WriteDict_ByteArray benc)))
      \<and> (int (length (WriteDict_ByteArray benc)) < 2147483648 \<longrightarrow>
            dict_encoded_size benc = int (length (WriteDict_ByteArray benc)))"
    if run: "run_calls Put_ByteArray bcalls (DictEncoder tlen) = Inr benc"
  proof -
    have init: "counts_ByteArray (DictEncoder tlen)"
      by (simp add: counts_ByteArray_def DictEncoder_def WriteDict_ByteArray_def to_int32_def)
    have step: "\<And>v e e'. counts_ByteArray e \<Longrightarrow> Put_ByteArray v e = Inr e'
        \<Longrightarrow> counts_ByteArray e'"
      by (rule Put_ByteArray_counts)
    have "counts_ByteArray benc"
      by (rule run_calls_invariant [of counts_ByteArray Put_ByteArray, OF step init run])
    then show ?thesis
      using to_int32_nat [of "length (WriteDict_ByteArray benc)"]
        length_WriteDict_ByteArray [of benc]
      by (simp add: counts_ByteArray_def)
  qed
  have flba: "\<exists>bytes. WriteDict_FLBA fenc = Inr bytes
         \<and> int (length bytes) = tlen * int (length (memo_table fenc))
         \<and> dict_encoded_size fenc = to_int32 (int (length bytes))
         \<and> (int (length bytes) < 2147483648 \<longrightarrow> dict_encoded_size fenc = int (length bytes))"
    if run: "run_calls Put_FLBA fcalls (DictEncoder tlen) = Inr fenc" and tl: "0 \<le> tlen"
  proof -
    have init: "counts_FLBA (DictEncoder tlen)"
      by (simp add: counts_FLBA_def DictEncoder_def to_int32_def)
    have step: "\<And>v e e'. counts_FLBA e \<Longrightarrow> Put_FLBA v e = Inr e' \<Longrightarrow> counts_FLBA e'"
      by (rule Put_FLBA_counts)
    have c: "counts_FLBA fenc"
      by (rule run_calls_invariant [of counts_FLBA Put_FLBA, OF step init run])
    have init': "type_length (DictEncoder tlen :: byte list dict_encoder) = tlen"
      by (simp add: DictEncoder_def)
    have step': "\<And>v e e'. type_length e = tlen \<Longrightarrow> Put_FLBA v e = Inr e'
        \<Longrightarrow> type_length e' = tlen"
      by (simp add: Put_FLBA_type_length)
    have t: "type_length fenc = tlen"
      by (rule run_calls_invariant [of "\<lambda>e. type_length e = tlen" Put_FLBA, OF step' init' run])
    from counts_FLBA_WriteDict [OF c] tl t obtain bytes
      where w: "WriteDict_FLBA fenc = Inr bytes"
        and l: "int (length bytes) = tlen * int (length (memo_table fenc))"
        and d: "dict_encoded_size fenc = to_int32 (int (length bytes))"
      by auto
    from d to_int32_nat [of "length bytes"]
    have "int (length bytes) < 2147483648 \<longrightarrow> dict_encoded_size fenc = int (length bytes)"
      by simp
    with w l d show ?thesis by blast
  qed
  have rep: "dict_encoded_size e' =
           (if v \<in> set (memo_table e) then dict_encoded_size e
            else to_int32 (dict_encoded_size e + int (LENGTH('a) div 8)))"
    if "Put v e = Inr e'"
    using that
    by (auto simp: Put_def put_key_fields sizeof_word_def to_int32_add_right)
  have brep: "dict_encoded_size be' =
           (if b \<in> set (memo_table be) then dict_encoded_size be
            else to_int32 (dict_encoded_size be + (4 + int (length b))))"
    if "Put_ByteArray b be = Inr be'"
    using that
    by (auto simp: Put_ByteArray_def put_key_fields to_int32_add_right add.commute
        split: if_splits)
  have frep: "dict_encoded_size fe' =
           (if take (nat (type_length fe)) f \<in> set (memo_table fe) then dict_encoded_size fe
            else to_int32 (dict_encoded_size fe + type_length fe))"
    if "Put_FLBA f fe = Inr fe'"
    using that
    by (auto simp: Put_FLBA_def put_key_fields split: if_splits)
  from prim bytes flba rep brep frep show ?thesis by blast
qed

lemma four_words_reached:
  "run_calls Put [CallPut 5, CallPutMany [1, 5, 7] 3,
      CallPutSpaced [9, 9, 1] 3 [True, True, False, True] 1] (DictEncoder (- 1))
     = Inr four_words"
  by code_simp

lemma two_fixed_reached:
  "run_calls Put_FLBA [CallPut [1, 2, 3], CallPutMany [[4, 5], [1, 2, 3, 4]] 2] (DictEncoder 2)
     = Inr two_fixed"
  by code_simp

theorem dict_encoded_size_counts_WriteDict_witness:
  "run_calls Put [CallPut 5, CallPutMany [1, 5, 7] 3,
      CallPutSpaced [9, 9, 1] 3 [True, True, False, True] 1] (DictEncoder (- 1))
     = Inr four_words
   \<and> dict_encoded_size four_words = 16 \<and> length (WriteDict four_words) = 16
   \<and> run_calls Put_ByteArray [CallPutMany [[1, 2], [3], [1, 2]] 3] (DictEncoder (- 1))
     = Inr three_indices
   \<and> dict_encoded_size three_indices = 11 \<and> length (WriteDict_ByteArray three_indices) = 11
   \<and> run_calls Put_FLBA [CallPut [1, 2, 3], CallPutMany [[4, 5], [1, 2, 3, 4]] 2] (DictEncoder 2)
     = Inr two_fixed
   \<and> dict_encoded_size two_fixed = 4 \<and> WriteDict_FLBA two_fixed = Inr [1, 2, 4, 5]
   \<and> Put 7 four_words = Inr (four_words \<lparr> buffered_indices := [0, 1, 0, 2, 3, 1, 2] \<rparr>)
   \<and> Put_ByteArray [3] three_indices = Inr (three_indices \<lparr> buffered_indices := [0, 1, 0, 1] \<rparr>)
   \<and> Put_FLBA [4, 5, 6] two_fixed = Inr (two_fixed \<lparr> buffered_indices := [0, 1, 0, 1] \<rparr>)"
proof -
  have w: "length (WriteDict four_words) = 16"
    "length (WriteDict_ByteArray three_indices) = 11"
    "WriteDict_FLBA two_fixed = Inr [1, 2, 4, 5]"
    by code_simp+
  have d: "dict_encoded_size four_words = 16" "dict_encoded_size three_indices = 11"
    "dict_encoded_size two_fixed = 4"
    by (simp_all add: four_words_def three_indices_def two_fixed_def)
  have p: "Put 7 four_words = Inr (four_words \<lparr> buffered_indices := [0, 1, 0, 2, 3, 1, 2] \<rparr>)"
    "Put_ByteArray [3] three_indices = Inr (three_indices \<lparr> buffered_indices := [0, 1, 0, 1] \<rparr>)"
    "Put_FLBA [4, 5, 6] two_fixed = Inr (two_fixed \<lparr> buffered_indices := [0, 1, 0, 1] \<rparr>)"
    by code_simp+
  from dict_encoded_size_counts_WriteDict [where calls = "[CallPut 5, CallPutMany [1, 5, 7] 3,
        CallPutSpaced [9, 9, 1] 3 [True, True, False, True] 1]" and tlen = "- 1"
      and enc = four_words and bcalls = "[CallPutMany [[1, 2], [3], [1, 2]] 3]"
      and benc = three_indices and fcalls = "[]" and fenc = "DictEncoder (- 1)"
      and v = 7 and e = four_words
      and e' = "four_words \<lparr> buffered_indices := [0, 1, 0, 2, 3, 1, 2] \<rparr>"
      and b = "[3]" and be = three_indices
      and be' = "three_indices \<lparr> buffered_indices := [0, 1, 0, 1] \<rparr>"
      and f = "[4, 5, 6]" and fe = two_fixed
      and fe' = "two_fixed \<lparr> buffered_indices := [0, 1, 0, 1] \<rparr>"]
    dict_encoded_size_counts_WriteDict [where fcalls = "[CallPut [1, 2, 3],
        CallPutMany [[4, 5], [1, 2, 3, 4]] 2]" and tlen = 2 and fenc = two_fixed
      and calls = "[]" and enc = "DictEncoder 2 :: 32 word dict_encoder"]
    four_words_reached three_indices_reached two_fixed_reached w d p
  show ?thesis by simp
qed

section \<open>The hash kernel as the preprocessor leaves it\<close>

lemma mask_bounds: "0 \<le> m \<Longrightarrow> 0 \<le> x AND m \<and> x AND m \<le> m" for x m :: int
  by (simp add: AND_upper2)

lemma hash_inner_loop_reads:
  "hash_slots k = Some slots \<Longrightarrow> 0 \<le> mod_bitmask k \<Longrightarrow> mod_bitmask k < int (length slots) \<Longrightarrow>
   hash_inner_loop h v k = Inr k"
proof -
  assume s: "hash_slots k = Some slots" and m: "0 \<le> mod_bitmask k"
    and l: "mod_bitmask k < int (length slots)"
  from mask_bounds [OF m, of "h v"] l
  have "\<not> (h v AND mod_bitmask k < 0 \<or> int (length slots) \<le> h v AND mod_bitmask k)"
    by linarith
  with s show ?thesis by (simp add: hash_inner_loop_def Let_def)
qed

lemma hash_inner_loop_same: "hash_inner_loop h v k = Inr k' \<Longrightarrow> k' = k"
  by (auto simp: hash_inner_loop_def Let_def split: option.splits if_splits)

lemma ObserveNull_table:
  "dict_values (ObserveNull act k) = dict_values k"
  "hash_slots (ObserveNull act k) = hash_slots k"
  "hash_table_size (ObserveNull act k) = hash_table_size k"
  "mod_bitmask (ObserveNull act k) = mod_bitmask k"
  "initialized (ObserveNull act k) = initialized k"
  by (cases act; simp)+

lemma append_loop_keeps_table:
  "append_loop h act arr i n k = Inr k' \<Longrightarrow>
   dict_values k' = dict_values k \<and> hash_slots k' = hash_slots k
   \<and> hash_table_size k' = hash_table_size k \<and> mod_bitmask k' = mod_bitmask k"
proof (induction n arbitrary: i k)
  case 0
  then show ?case by simp
next
  case (Suc n)
  show ?case
  proof (cases "arr_null_count arr \<noteq> 0")
    case nulls: True
    show ?thesis
    proof (cases "arr_validity arr ! (arr_offset arr + i)")
      case True
      with Suc.prems nulls obtain k1 where
        a: "hash_inner_loop h (arr_values arr ! (arr_offset arr + i)) k = Inr k1"
        and b: "append_loop h act arr (Suc i) n k1 = Inr k'"
        by (auto split: if_splits sum.splits)
      from hash_inner_loop_same [OF a] Suc.IH [OF b] show ?thesis by simp
    next
      case False
      with Suc.prems nulls have "append_loop h act arr (Suc i) n (ObserveNull act k) = Inr k'"
        by (auto split: if_splits)
      from Suc.IH [OF this] show ?thesis by (simp add: ObserveNull_table)
    qed
  next
    case False
    with Suc.prems have "append_loop h act arr (Suc i) n k = Inr k'"
      by (auto split: if_splits option.splits)
    from Suc.IH [OF this] show ?thesis .
  qed
qed

lemma Append_dictionary: "Append h act arr k = Inr k' \<Longrightarrow> dict_values k = [] \<Longrightarrow> dict_values k' = []"
  by (auto simp: Append_def Init_def dest!: append_loop_keeps_table split: if_splits)

lemma observe_nulls_dictionary: "dict_values (observe_nulls act n k) = dict_values k"
  by (induction n arbitrary: k) (simp_all add: ObserveNull_table)

lemma Call_dictionary:
  "Call h func arr s = Inr s' \<Longrightarrow> dict_values (fst s) = [] \<Longrightarrow> dict_values (fst s') = []"
proof -
  assume c: "Call h func arr s = Inr s'" and e: "dict_values (fst s) = []"
  obtain act hk where f: "func = (act, hk)" by (cases func)
  from c obtain k where a: "hasher_Append h func arr (fst s) = Inr k"
    and s': "s' = Flush (fst func) k (snd s)"
    by (auto simp: Call_def split: sum.splits)
  have "dict_values k = []"
  proof (cases hk)
    case NullHasher
    with a f e show ?thesis
      by (auto simp: Append_null_def Init_null_def observe_nulls_dictionary)
  next
    case PrimitiveHasher
    with a f have "Append h act arr (fst s) = Inr k" by simp
    from Append_dictionary [OF this e] show ?thesis .
  qed
  then show ?thesis unfolding s' f by (cases act) simp_all
qed

lemma call_chunks_dictionary:
  "call_chunks h func cs s = Inr s' \<Longrightarrow> dict_values (fst s) = [] \<Longrightarrow> dict_values (fst s') = []"
proof (induction cs arbitrary: s)
  case Nil
  then show ?case by simp
next
  case (Cons c cs)
  from Cons.prems(1) obtain s1 where a: "Call h func c s = Inr s1"
    and b: "call_chunks h func cs s1 = Inr s'"
    by (auto split: sum.splits)
  from Cons.IH [OF b Call_dictionary [OF a Cons.prems(2)]] show ?case .
qed

lemma InvokeHash_dictionary:
  "InvokeHash h func d = Inr (outs, dictionary) \<Longrightarrow>
   arr_values dictionary = [] \<and> arr_length dictionary = 0"
proof -
  assume i: "InvokeHash h func d = Inr (outs, dictionary)"
  obtain act hk where f: "func = (act, hk)" by (cases func)
  from i obtain k where r: "(case d of
              ARRAY arr \<Rightarrow> Call h func arr (new_kernel (datum_type d), [])
            | CHUNKED_ARRAY ty chunks \<Rightarrow> call_chunks h func chunks (new_kernel (datum_type d), []))
        = Inr (k, outs)" and dd: "dictionary = hasher_GetDictionary func k"
    by (auto simp: InvokeHash_def split: sum.splits)
  have n: "dict_values (fst (new_kernel (datum_type d) :: 'a hash_kernel, [] :: int option list list)) = []"
    by (simp add: new_kernel_def)
  have "dict_values (fst (k, outs)) = []"
  proof (cases d)
    case (ARRAY arr)
    with r have "Call h func arr (new_kernel (datum_type d), []) = Inr (k, outs)" by simp
    from Call_dictionary [OF this n] show ?thesis .
  next
    case (CHUNKED_ARRAY ty chunks)
    with r have "call_chunks h func chunks (new_kernel (datum_type d), []) = Inr (k, outs)" by simp
    from call_chunks_dictionary [OF this n] show ?thesis .
  qed
  then show ?thesis unfolding dd f
    by (cases hk) (simp_all add: GetDictionary_def GetDictionary_null_def NullArray_def)
qed

lemma Unique_dictionary_empty:
  "Unique h d = Inr dictionary \<Longrightarrow> arr_values dictionary = [] \<and> arr_length dictionary = 0"
  by (auto simp: Unique_def split: sum.splits dest: InvokeHash_dictionary)

lemma DictionaryEncode_dictionary_empty:
  "DictionaryEncode h d = Inr (indices, dictionary) \<Longrightarrow>
   arr_values dictionary = [] \<and> arr_length dictionary = 0"
  by (auto simp: DictionaryEncode_def split: sum.splits list.splits datum.splits
      dest: InvokeHash_dictionary)

lemma Append_basic_column:
  "Append h act basic_column (new_kernel Int32Type) =
     Inr (ObserveNull act (Init (new_kernel Int32Type)))"
proof -
  have r: "hash_inner_loop h v (Init (new_kernel Int32Type)) = Inr (Init (new_kernel Int32Type))" for v
    by (rule hash_inner_loop_reads [where slots = "NewHashTable kInitialHashTableSize"])
      (simp_all add: Init_def NewHashTable_def kInitialHashTableSize_def)
  have r': "hash_inner_loop h v (ObserveNull act (Init (new_kernel Int32Type)))
      = Inr (ObserveNull act (Init (new_kernel Int32Type)))" for v
    by (rule hash_inner_loop_reads [where slots = "NewHashTable kInitialHashTableSize"])
      (simp_all add: ObserveNull_table Init_def NewHashTable_def kInitialHashTableSize_def)
  have four: "(4::nat) = Suc (Suc (Suc (Suc 0)))" by simp
  show ?thesis
    by (simp add: Append_def basic_column_def new_kernel_def [where ty = Int32Type, THEN arg_cong [where f = initialized]] four r r')
qed

text \<open>
  Claim C1, at the column of the repository's test \<open>EncodeBasic\<close>: 2, null, 2, 1, of
  which the test expects the values 2, 1. The claim is that \<open>unique\<close> returns the
  distinct non-null values in order of first occurrence and that \<open>dictionary_encode\<close>
  returns one index for every position. As the macro stands no value reaches the
  dictionary. Whatever the hash function, \<open>Unique\<close> returns an array of length 0, and
  \<open>DictionaryEncode\<close> returns, for the four positions, the one null that \<open>ObserveNull\<close>
  appended, with an empty dictionary.
\<close>

theorem unique_returns_no_value:
  "Unique h (ARRAY basic_column) =
     Inr \<lparr> arr_type = Int32Type, arr_length = 0, arr_null_count = 0, arr_offset = 0,
           arr_validity = [], arr_values = [] \<rparr>
   \<and> DictionaryEncode h (ARRAY basic_column) =
     Inr ([[None]],
          \<lparr> arr_type = Int32Type, arr_length = 0, arr_null_count = 0, arr_offset = 0,
            arr_validity = [], arr_values = [] \<rparr>)"
proof -
  have t: "arr_type basic_column = Int32Type" by (simp add: basic_column_def)
  have u: "Unique h (ARRAY basic_column) =
     Inr \<lparr> arr_type = Int32Type, arr_length = 0, arr_null_count = 0, arr_offset = 0,
           arr_validity = [], arr_values = [] \<rparr>"
    by (simp add: Unique_def GetUniqueKernel_def InvokeHash_def Call_def t Append_basic_column)
      (simp_all add: GetDictionary_def Init_def new_kernel_def)
  have d: "DictionaryEncode h (ARRAY basic_column) =
     Inr ([[None]],
          \<lparr> arr_type = Int32Type, arr_length = 0, arr_null_count = 0, arr_offset = 0,
            arr_validity = [], arr_values = [] \<rparr>)"
    by (simp add: DictionaryEncode_def GetDictionaryEncodeKernel_def InvokeHash_def Call_def t
        Append_basic_column)
      (simp_all add: GetDictionary_def Init_def new_kernel_def)
  from u d show ?thesis by simp
qed

section \<open>The memo table\<close>

lemma length_probe_sequence [simp]: "length (probe_sequence s c) = c"
  by (simp add: probe_sequence_def)

lemma nth_probe_sequence [simp]: "k < c \<Longrightarrow> probe_sequence s c ! k = (s + k) mod c"
  by (simp add: probe_sequence_def)




lemma find_probe_Some:
  "find P (probe_sequence s c) = Some j \<longleftrightarrow>
     (\<exists>k<c. j = (s + k) mod c \<and> P j \<and> (\<forall>k'<k. \<not> P ((s + k') mod c)))"
proof
  assume "find P (probe_sequence s c) = Some j"
  then obtain k where k: "k < c" "P (probe_sequence s c ! k)" "j = probe_sequence s c ! k"
    and before: "\<forall>k'<k. \<not> P (probe_sequence s c ! k')"
    unfolding find_Some_iff by auto
  have "\<not> P ((s + k') mod c)" if "k' < k" for k'
    using before that k(1) by (simp add: less_trans)
  with k show "\<exists>k<c. j = (s + k) mod c \<and> P j \<and> (\<forall>k'<k. \<not> P ((s + k') mod c))"
    by auto
next
  assume "\<exists>k<c. j = (s + k) mod c \<and> P j \<and> (\<forall>k'<k. \<not> P ((s + k') mod c))"
  then obtain k where k: "k < c" "j = (s + k) mod c" "P j"
    and before: "\<forall>k'<k. \<not> P ((s + k') mod c)" by auto
  have "\<forall>k'<k. \<not> P (probe_sequence s c ! k')"
    using before k(1) by (simp add: less_trans)
  with k show "find P (probe_sequence s c) = Some j"
    unfolding find_Some_iff by (intro exI [of _ k]) simp
qed




lemma memo_search_Some:
  "memo_search h slots vals v = Some j \<longleftrightarrow>
     (\<exists>k<length slots. j = (home_slot h (length slots) v + k) mod length slots
        \<and> probe_stops slots vals v j
        \<and> (\<forall>k'<k. \<not> probe_stops slots vals v ((home_slot h (length slots) v + k') mod length slots)))"
  unfolding memo_search_def by (rule find_probe_Some)













lemma memo_new_invariant: "0 < capacity \<Longrightarrow> memo_invariant h (memo_new capacity)"
  by (simp add: memo_invariant_def memo_new_def memo_size_def memo_capacity_def table_ok_def
      kHashSlotEmpty_def list_all_iff)









text \<open>
  The same for the encoder of the file format, whose \<open>Put\<close> buffers the index that
  \<open>GetOrInsert\<close> returns: a second \<open>Put\<close> of a value buffers the index that the first
  one buffered and leaves the number of entries and the size counter as they are.
\<close>

lemma memo_get_appended: "v \<notin> set memo \<Longrightarrow> memo_get v (memo @ [v]) = Some (length memo)"
  by (induction memo) auto

lemma memo_get_bound: "memo_get v memo = Some i \<Longrightarrow> i < length memo \<and> memo ! i = v"
  by (induction memo arbitrary: i) (auto split: if_splits)

lemma GetOrInsert_twice:
  "GetOrInsert v memo = (index, found, memo1) \<Longrightarrow> GetOrInsert v memo1 = (index, True, memo1)"
  using memo_get_None [of v memo] memo_get_appended [of v memo]
  by (auto simp: GetOrInsert_def split: option.splits)

lemma put_key_twice:
  "buffered_indices (put_key key added (put_key key added enc))
     = buffered_indices (put_key key added enc) @ [last (buffered_indices (put_key key added enc))]
   \<and> memo_table (put_key key added (put_key key added enc)) = memo_table (put_key key added enc)
   \<and> dict_encoded_size (put_key key added (put_key key added enc))
       = dict_encoded_size (put_key key added enc)"
proof -
  obtain index found memo1 where g: "GetOrInsert key (memo_table enc) = (index, found, memo1)"
    by (cases "GetOrInsert key (memo_table enc)") auto
  from GetOrInsert_twice [OF g] g show ?thesis
    by (simp add: put_key_def)
qed

lemma Put_twice:
  assumes "Put v enc = Inr e1"
  shows "\<exists>e2. Put v e1 = Inr e2
    \<and> buffered_indices e2 = buffered_indices e1 @ [last (buffered_indices e1)]
    \<and> num_entries e2 = num_entries e1
    \<and> dict_encoded_size e2 = dict_encoded_size e1"
  using assms put_key_twice [of v "to_int32 (int (sizeof_word v))" enc]
  by (auto simp: Put_def num_entries_def)

section \<open>The table after \<open>DoubleTableSize\<close>\<close>






lemma memo_search_first:
  assumes "home_slot h (length slots) v = s" and "s < length slots"
    and "probe_stops slots vals v s"
  shows "memo_search h slots vals v = Some s"
  unfolding memo_search_Some assms(1)
  using assms(2,3) by (intro exI [of _ 0]) auto

lemma memo_search_second:
  assumes "home_slot h (length slots) v = s" and "s < length slots" and "1 < length slots"
    and "\<not> probe_stops slots vals v s"
    and "probe_stops slots vals v t"
    and "t = (s + 1) mod length slots"
  shows "memo_search h slots vals v = Some t"
  unfolding memo_search_Some assms(1)
  using assms(2-6) by (intro exI [of _ 1]) auto

lemma low_bits: "x AND 2047 = 1023 \<Longrightarrow> x AND 1023 = 1023" for x :: int
proof -
  assume a: "x AND 2047 = 1023"
  have "x AND 1023 = x AND (2047 AND 1023)" by simp
  also have "\<dots> = (x AND 2047) AND 1023" by (simp only: and.assoc)
  finally show ?thesis using a by simp
qed



text \<open>
  The table of \<open>two_collisions\<close> is the one that \<open>get_or_insert\<close> of \<open>a\<close> and then of
  \<open>b\<close> makes of a new table of 1024 slots.
\<close>

lemma two_collisions_slots:
  "(replicate 1024 kHashSlotEmpty)[1023 := 0, 0 := 1] = 1 # replicate 1022 kHashSlotEmpty @ [0]"
  by (rule nth_equalityI) (auto simp: nth_list_update nth_Cons' nth_append)

lemma two_collisions_reached:
  assumes a: "h a AND 2047 = 1023" and b: "h b AND 2047 = 1023" and ab: "a \<noteq> b"
  shows "get_or_insert h a (memo_new 1024)
      = Inr (0, False, \<lparr> memo_slots = (replicate 1024 kHashSlotEmpty)[1023 := 0],
                          memo_values = [a] \<rparr>)"
    and "get_or_insert h b \<lparr> memo_slots = (replicate 1024 kHashSlotEmpty)[1023 := 0],
                            memo_values = [a] \<rparr>
      = Inr (1, False, \<lparr> memo_slots = 1 # replicate 1022 kHashSlotEmpty @ [0],
                          memo_values = [a, b] \<rparr>)"
    and "hash_slots (two_collisions a b) = Some (1 # replicate 1022 kHashSlotEmpty @ [0])"
    and "dict_values (two_collisions a b) = [a, b]"
proof -
  define s0 where "s0 = replicate 1024 kHashSlotEmpty"
  define s1 where "s1 = (replicate 1024 kHashSlotEmpty)[1023 := 0]"
  have e: "kHashSlotEmpty \<noteq> 0" by (simp add: kHashSlotEmpty_def)
  have f0: "length s0 = 1024" "s0 ! 1023 = kHashSlotEmpty" by (simp_all add: s0_def)
  have f1: "length s1 = 1024" "s1 ! 1023 = 0" "s1 ! 0 = kHashSlotEmpty" by (simp_all add: s1_def)
  have ha: "home_slot h (length s0) a = 1023" and hb: "home_slot h (length s1) b = 1023"
    using low_bits [OF a] low_bits [OF b] by (simp_all add: home_slot_def f0 f1)
  have sa: "memo_search h s0 [] a = Some 1023"
    by (rule memo_search_first [OF ha]) (simp_all add: probe_stops_def f0)
  have sb: "memo_search h s1 [a] b = Some 0"
    by (rule memo_search_second [OF hb]) (use ab in \<open>simp_all add: probe_stops_def slot_holds_def f1 e\<close>)
  show "get_or_insert h a (memo_new 1024)
      = Inr (0, False, \<lparr> memo_slots = (replicate 1024 kHashSlotEmpty)[1023 := 0],
                          memo_values = [a] \<rparr>)"
    using sa f0 by (simp add: get_or_insert_def memo_new_def s0_def [symmetric] memo_size_def
        memo_capacity_def over_max_load_def Let_def)
  show "get_or_insert h b \<lparr> memo_slots = (replicate 1024 kHashSlotEmpty)[1023 := 0],
                            memo_values = [a] \<rparr>
      = Inr (1, False, \<lparr> memo_slots = 1 # replicate 1022 kHashSlotEmpty @ [0],
                          memo_values = [a, b] \<rparr>)"
    using sb f1 two_collisions_slots
    by (simp add: get_or_insert_def s1_def [symmetric] memo_size_def
        memo_capacity_def over_max_load_def Let_def)
  show "hash_slots (two_collisions a b) = Some (1 # replicate 1022 kHashSlotEmpty @ [0])"
    "dict_values (two_collisions a b) = [a, b]"
    by (simp_all add: two_collisions_def)
qed



end
